theory Spec2Isabelle
  imports Main "HOL-Library.AList" "HOL-Library.Sublist"
begin

section \<open>Exceptions and results\<close>

text \<open>
  The Python exception classes that \<^verbatim>\<open>snapcraft/file_utils.py\<close> raises, catches or lets
  through. \<open>OSError_other\<close> stands for an \<^verbatim>\<open>OSError\<close> of no more specific class (a
  cross-device link, too many levels of symbolic links). The three \<open>Required...\<close> exceptions
  carry their keyword arguments: the command, its argument list (or the path) and the
  optional message template.
\<close>

datatype error =
    NotADirectoryError
  | FileExistsError
  | FileNotFoundError
  | IsADirectoryError
  | PermissionError
  | SameFileError
  | OSError_other
  | UnicodeDecodeError
  | AttributeError
  | TypeError
  | IndexError
  | ValueError
  | RuntimeError
  | CalledProcessError
  | RequiredCommandNotFound string "string list" "string option"
  | RequiredCommandFailure string "string list" "string option"
  | RequiredPathDoesNotExist "string list" "string option"

text \<open>\<^verbatim>\<open>except OSError\<close> catches the subclasses of \<^verbatim>\<open>OSError\<close>;
  \<^verbatim>\<open>shutil.SameFileError\<close> is one of them.\<close>

fun is_OSError :: "error \<Rightarrow> bool" where
  "is_OSError NotADirectoryError = True"
| "is_OSError FileExistsError = True"
| "is_OSError FileNotFoundError = True"
| "is_OSError IsADirectoryError = True"
| "is_OSError PermissionError = True"
| "is_OSError SameFileError = True"
| "is_OSError OSError_other = True"
| "is_OSError _ = False"

datatype 'a result = Ok 'a | Raise error

section \<open>Guard: \<^verbatim>\<open>requires_command_success\<close>\<close>

text \<open>
  The argument \<^verbatim>\<open>command\<close> is an arbitrary Python value; only \<^verbatim>\<open>isinstance(command, str)\<close>
  is asked of it.
\<close>

datatype py_value = PyStr string | PyBytes string | PyInt int | PyNone | PyList "py_value list"

text \<open>
  \<^verbatim>\<open>str.split()\<close> without arguments: the maximal runs of non-whitespace characters.
  A \<open>char\<close> is read as a code point below 256; the whitespace ones are those of
  \<^verbatim>\<open>str.isspace\<close>.
\<close>

definition is_space :: "char \<Rightarrow> bool" where
  "is_space c = ((of_char c :: nat) \<in> {9, 10, 11, 12, 13, 28, 29, 30, 31, 32, 133, 160})"

fun split_acc :: "string \<Rightarrow> string \<Rightarrow> string list" where
  "split_acc w [] = (if w = [] then [] else [w])"
| "split_acc w (c # cs) =
     (if is_space c then (if w = [] then split_acc [] cs else w # split_acc [] cs)
      else split_acc (w @ [c]) cs)"

definition str_split :: "string \<Rightarrow> string list" where
  "str_split s = split_acc [] s"

text \<open>
  What running a non-empty argument list does is outside the program: it is the parameter
  \<open>run\<close>. Starting the process may raise: \<^verbatim>\<open>FileNotFoundError\<close> when the executable
  is not found, and other exceptions for other reasons (\<^verbatim>\<open>PermissionError\<close> for a file that
  may not be executed, \<^verbatim>\<open>NotADirectoryError\<close> for a path that goes through a regular file,
  \<^verbatim>\<open>ValueError\<close> for an argument with a null byte). A process that was started exits with
  a status, or never does: with \<^verbatim>\<open>stdout=PIPE\<close> and nobody reading, a command that writes
  more than the pipe holds blocks for ever. \<^verbatim>\<open>subprocess.check_call\<close> reads \<^verbatim>\<open>args[0]\<close> as
  the executable, which raises \<^verbatim>\<open>IndexError\<close> on the empty list before anything is run, and
  it raises \<^verbatim>\<open>CalledProcessError\<close> on a non-zero exit status. \<open>None\<close> is "does not return".
\<close>

datatype proc_outcome = Raises error | Exited int | Blocks

definition check_call :: "(string list \<Rightarrow> proc_outcome) \<Rightarrow> string list \<Rightarrow> unit result option" where
  "check_call run cmd_list =
     (case cmd_list of
        [] \<Rightarrow> Some (Raise IndexError)
      | _ # _ \<Rightarrow>
         (case run cmd_list of
            Raises e \<Rightarrow> Some (Raise e)
          | Exited n \<Rightarrow> Some (if n = 0 then Ok () else Raise CalledProcessError)
          | Blocks \<Rightarrow> None))"

text \<open>
  A generator function, as \<^verbatim>\<open>@contextmanager\<close> uses it: it raises, or yields and goes on,
  or returns. \<open>cm_enter\<close> is \<^verbatim>\<open>__enter__\<close> (run to the first \<^verbatim>\<open>yield\<close>), \<open>cm_exit\<close> is
  \<^verbatim>\<open>__exit__\<close> after a guarded region that raised nothing, and \<open>with_guard\<close> is the
  \<^verbatim>\<open>with\<close> statement around a guarded region \<open>body\<close>; it does not return when the
  generator does not come to its first \<^verbatim>\<open>yield\<close>.
\<close>

datatype gen = Gen_raise error | Gen_yield gen | Gen_return

fun cm_enter :: "gen \<Rightarrow> gen result" where
  "cm_enter (Gen_raise e) = Raise e"
| "cm_enter (Gen_yield g) = Ok g"
| "cm_enter Gen_return = Raise RuntimeError"

fun cm_exit :: "gen \<Rightarrow> unit result" where
  "cm_exit Gen_return = Ok ()"
| "cm_exit (Gen_yield g) = Raise RuntimeError"
| "cm_exit (Gen_raise e) = Raise e"

definition with_guard :: "gen option \<Rightarrow> 'a result \<Rightarrow> 'a result option" where
  "with_guard guard body =
     (case guard of
        None \<Rightarrow> None
      | Some g \<Rightarrow>
          Some (case cm_enter g of
                  Raise e \<Rightarrow> Raise e
                | Ok g' \<Rightarrow>
                    (case body of
                       Raise e \<Rightarrow> Raise e
                     | Ok v \<Rightarrow> (case cm_exit g' of Raise e \<Rightarrow> Raise e | Ok u \<Rightarrow> Ok v))))"

definition requires_command_success ::
  "(string list \<Rightarrow> proc_outcome) \<Rightarrow> py_value \<Rightarrow> string option \<Rightarrow> string option \<Rightarrow> gen option" where
  "requires_command_success run command not_found_fmt failure_fmt =
     (case command of
        PyStr c \<Rightarrow>
          (let cmd_list = str_split c in
           case check_call run cmd_list of
             None \<Rightarrow> None
           | Some (Raise e) \<Rightarrow>
               if e = FileNotFoundError
               then Some (Gen_raise (RequiredCommandNotFound c cmd_list not_found_fmt))
               else if e = CalledProcessError
               then Some (Gen_raise (RequiredCommandFailure c cmd_list failure_fmt))
               else Some (Gen_raise e)
           | Some (Ok u) \<Rightarrow> Some (Gen_yield Gen_return))
      | _ \<Rightarrow> Some (Gen_raise TypeError))"

section \<open>The file system\<close>

text \<open>
  A path is the list of its components from the root; \<^verbatim>\<open>os.path.join(root, name)\<close> is
  \<open>root @ [name]\<close> and \<^verbatim>\<open>os.path.dirname\<close> is \<open>butlast\<close>. The file system is a table from
  paths to nodes. A regular file is a directory entry for an inode number, so that two
  entries with the same number are hard links of one file; the inode table holds the
  file's bytes and its \<^verbatim>\<open>stat\<close> fields. A directory and a symbolic link carry their
  \<^verbatim>\<open>stat\<close> fields themselves; a symbolic link stores the path it points to.

  Scope of this model of the operating system. A path names an entry only through real
  directories: a symbolic link is followed where it is the last component of the path an
  operation is given (and the operation follows links), never in the middle of a path.
  Access times, the modification time a directory gets when an entry is made or removed
  in it, special files and extended attributes are left out; new nodes get the modes of
  umask 022.

  What the model cannot decide from the table is a field of the state that no operation
  changes: whether the system refuses a hard link between two paths (another device,
  permissions), refuses a change of owner, refuses to open a file for writing, and how
  bytes are decoded to text and back in the locale's encoding.
\<close>

type_synonym path = "string list"

record meta =
  st_uid :: nat
  st_gid :: nat
  st_mode :: nat
  st_mtime :: nat

datatype node = Dir meta | Lnk path meta | Reg nat

datatype level = Debug | Warning

datatype log_entry = Log level path error

record state =
  entries :: "(path \<times> node) list"
  inodes :: "nat \<Rightarrow> string \<times> meta"
  next_ino :: nat
  clock :: nat
  euid :: nat
  egid :: nat
  link_refused :: "path \<Rightarrow> path \<Rightarrow> bool"
  chown_refused :: "path \<Rightarrow> bool"
  open_refused :: "path \<Rightarrow> bool"
  decode :: "string \<Rightarrow> string option"
  encode :: "string \<Rightarrow> string"
  logged :: "log_entry list"

definition lookup :: "state \<Rightarrow> path \<Rightarrow> node option" where
  "lookup s p = map_of (entries s) p"

definition set_entry :: "path \<Rightarrow> node \<Rightarrow> state \<Rightarrow> state" where
  "set_entry p nd s = s\<lparr>entries := AList.update p nd (entries s)\<rparr>"

definition del_entry :: "path \<Rightarrow> state \<Rightarrow> state" where
  "del_entry p s = s\<lparr>entries := AList.delete p (entries s)\<rparr>"

definition new_meta :: "nat \<Rightarrow> state \<Rightarrow> meta" where
  "new_meta m s = \<lparr>st_uid = euid s, st_gid = egid s, st_mode = m, st_mtime = clock s\<rparr>"

definition meta_of :: "state \<Rightarrow> node \<Rightarrow> meta" where
  "meta_of s nd = (case nd of Dir m \<Rightarrow> m | Lnk _ m \<Rightarrow> m | Reg i \<Rightarrow> snd (inodes s i))"

definition map_meta :: "(meta \<Rightarrow> meta) \<Rightarrow> path \<Rightarrow> node \<Rightarrow> state \<Rightarrow> state" where
  "map_meta f p nd s =
     (case nd of
        Dir m \<Rightarrow> set_entry p (Dir (f m)) s
      | Lnk t m \<Rightarrow> set_entry p (Lnk t (f m)) s
      | Reg i \<Rightarrow> s\<lparr>inodes := (inodes s)(i := (fst (inodes s i), f (snd (inodes s i))))\<rparr>)"

text \<open>
  Following symbolic links at the last component, at most 40 of them (more is the
  error \<^verbatim>\<open>ELOOP\<close>, an \<^verbatim>\<open>OSError\<close>): \<open>follow n\<close> goes through at most \<open>n\<close> links and
  gives the path where the chain ends, whether or not something is there.
\<close>

fun follow :: "nat \<Rightarrow> state \<Rightarrow> path \<Rightarrow> path option" where
  "follow 0 s p = (case lookup s p of Some (Lnk t _) \<Rightarrow> None | _ \<Rightarrow> Some p)"
| "follow (Suc n) s p = (case lookup s p of Some (Lnk t _) \<Rightarrow> follow n s t | _ \<Rightarrow> Some p)"

definition stat_path :: "state \<Rightarrow> path \<Rightarrow> (path \<times> node) option" where
  "stat_path s p =
     (case follow 40 s p of
        None \<Rightarrow> None
      | Some q \<Rightarrow> (case lookup s q of None \<Rightarrow> None | Some nd \<Rightarrow> Some (q, nd)))"

definition stat :: "state \<Rightarrow> path \<Rightarrow> node option" where
  "stat s p = map_option snd (stat_path s p)"

definition realpath :: "state \<Rightarrow> path \<Rightarrow> path" where
  "realpath s p = (case follow 40 s p of Some q \<Rightarrow> q | None \<Rightarrow> p)"

definition isdir :: "state \<Rightarrow> path \<Rightarrow> bool" where
  "isdir s p = (case stat s p of Some (Dir _) \<Rightarrow> True | _ \<Rightarrow> False)"

definition exists_path :: "state \<Rightarrow> path \<Rightarrow> bool" where
  "exists_path s p = (stat s p \<noteq> None)"

definition islink :: "state \<Rightarrow> path \<Rightarrow> bool" where
  "islink s p = (case lookup s p of Some (Lnk _ _) \<Rightarrow> True | _ \<Rightarrow> False)"

definition dirname :: "path \<Rightarrow> path" where
  "dirname p = butlast p"

definition basename :: "path \<Rightarrow> path" where
  "basename p = (if p = [] then [] else [last p])"

text \<open>\<^verbatim>\<open>os.path.relpath(path, start)\<close>: up from \<open>start\<close> to the common prefix, then down.\<close>

definition relpath :: "path \<Rightarrow> path \<Rightarrow> path" where
  "relpath p start =
     (let c = length (longest_common_prefix p start)
      in replicate (length start - c) ''..'' @ drop c p)"

text \<open>
  \<^verbatim>\<open>os.stat(path, follow_symlinks=...)\<close>, as far as the program reads it: the \<^verbatim>\<open>stat\<close>
  fields of the node, or \<^verbatim>\<open>FileNotFoundError\<close>, or the \<^verbatim>\<open>OSError\<close> of too many links.
\<close>

definition os_stat :: "bool \<Rightarrow> state \<Rightarrow> path \<Rightarrow> meta result" where
  "os_stat follow_symlinks s p =
     (if follow_symlinks \<and> follow 40 s p = None then Raise OSError_other
      else case (if follow_symlinks then stat s p else lookup s p) of
             None \<Rightarrow> Raise FileNotFoundError
           | Some nd \<Rightarrow> Ok (meta_of s nd))"

text \<open>Why no entry can be made at a path: its parent is missing or is no directory.\<close>

definition parent_error :: "state \<Rightarrow> path \<Rightarrow> error option" where
  "parent_error s p =
     (case lookup s (butlast p) of
        Some (Dir _) \<Rightarrow> None
      | None \<Rightarrow> Some FileNotFoundError
      | Some _ \<Rightarrow> Some NotADirectoryError)"

definition os_mkdir :: "path \<Rightarrow> state \<Rightarrow> unit result \<times> state" where
  "os_mkdir p s =
     (if lookup s p \<noteq> None then (Raise FileExistsError, s)
      else case parent_error s p of
             Some e \<Rightarrow> (Raise e, s)
           | None \<Rightarrow> (Ok (), set_entry p (Dir (new_meta 493 s)) s))"

text \<open>
  \<^verbatim>\<open>os.makedirs(name, exist_ok=True)\<close>: make the parent first when it does not exist
  (a \<^verbatim>\<open>FileExistsError\<close> from there is passed over), then the directory; an
  \<^verbatim>\<open>OSError\<close> of \<^verbatim>\<open>mkdir\<close> is raised again unless the path is a directory.
\<close>

function makedirs :: "path \<Rightarrow> state \<Rightarrow> unit result \<times> state" where
  "makedirs name s =
     (case (if name \<noteq> [] \<and> \<not> exists_path s (butlast name)
            then (case makedirs (butlast name) s of
                    (Raise e, s1) \<Rightarrow> if e = FileExistsError then (Ok (), s1) else (Raise e, s1)
                  | (Ok u, s1) \<Rightarrow> (Ok (), s1))
            else (Ok (), s)) of
        (Raise e, s1) \<Rightarrow> (Raise e, s1)
      | (Ok u, s1) \<Rightarrow>
          (case os_mkdir name s1 of
             (Raise e, s2) \<Rightarrow>
               if is_OSError e \<and> \<not> isdir s2 name then (Raise e, s2) else (Ok (), s2)
           | (Ok v, s2) \<Rightarrow> (Ok (), s2)))"
  by pat_completeness auto
termination
  by (relation "measure (\<lambda>(name, s). length name)") auto

text \<open>
  \<^verbatim>\<open>os.chown(path, uid, gid, follow_symlinks=...)\<close>: \<^verbatim>\<open>PermissionError\<close> where the system
  refuses it.
\<close>

definition os_chown :: "path \<Rightarrow> nat \<Rightarrow> nat \<Rightarrow> bool \<Rightarrow> state \<Rightarrow> unit result \<times> state" where
  "os_chown p u g follow_symlinks s =
     (case (if follow_symlinks then follow 40 s p else Some p) of
        None \<Rightarrow> (Raise OSError_other, s)
      | Some q \<Rightarrow>
          (case lookup s q of
             None \<Rightarrow> (Raise FileNotFoundError, s)
           | Some nd \<Rightarrow>
               if chown_refused s q then (Raise PermissionError, s)
               else (Ok (), map_meta (\<lambda>m. m\<lparr>st_uid := u, st_gid := g\<rparr>) q nd s)))"

text \<open>
  \<^verbatim>\<open>os.link(src, dst, follow_symlinks=False)\<close>: a new entry for the node of \<open>src\<close>
  itself. It fails when \<open>src\<close> is missing or a directory, when \<open>dst\<close> exists, when
  the parent of \<open>dst\<close> is missing or no directory, and when the system refuses the link.
\<close>

definition os_link :: "path \<Rightarrow> path \<Rightarrow> state \<Rightarrow> unit result \<times> state" where
  "os_link src dst s =
     (case lookup s src of
        None \<Rightarrow> (Raise FileNotFoundError, s)
      | Some (Dir _) \<Rightarrow> (Raise PermissionError, s)
      | Some nd \<Rightarrow>
          if lookup s dst \<noteq> None then (Raise FileExistsError, s)
          else case parent_error s dst of
                 Some e \<Rightarrow> (Raise e, s)
               | None \<Rightarrow>
                   if link_refused s src dst then (Raise OSError_other, s)
                   else (Ok (), set_entry dst nd s))"

definition os_unlink :: "path \<Rightarrow> state \<Rightarrow> unit result \<times> state" where
  "os_unlink p s =
     (case lookup s p of
        None \<Rightarrow> (Raise FileNotFoundError, s)
      | Some (Dir _) \<Rightarrow> (Raise IsADirectoryError, s)
      | Some _ \<Rightarrow> (Ok (), del_entry p s))"

definition os_symlink :: "path \<Rightarrow> path \<Rightarrow> state \<Rightarrow> unit result \<times> state" where
  "os_symlink target dst s =
     (if lookup s dst \<noteq> None then (Raise FileExistsError, s)
      else case parent_error s dst of
             Some e \<Rightarrow> (Raise e, s)
           | None \<Rightarrow> (Ok (), set_entry dst (Lnk target (new_meta 511 s)) s))"

definition readlink :: "state \<Rightarrow> path \<Rightarrow> path" where
  "readlink s p = (case lookup s p of Some (Lnk t _) \<Rightarrow> t | _ \<Rightarrow> [])"

text \<open>
  \<^verbatim>\<open>os.path.samefile\<close> inside \<^verbatim>\<open>shutil.copyfile\<close> (an \<^verbatim>\<open>OSError\<close> of \<^verbatim>\<open>stat\<close> counts as
  "not the same"): two regular files are the same when their inode numbers are, other
  nodes when they are the same entry.
\<close>

definition samefile :: "state \<Rightarrow> path \<Rightarrow> path \<Rightarrow> bool" where
  "samefile s a b =
     (case (stat_path s a, stat_path s b) of
        (Some (qa, Reg i), Some (qb, Reg j)) \<Rightarrow> i = j
      | (Some (qa, Reg i), Some (qb, _)) \<Rightarrow> False
      | (Some (qa, _), Some (qb, Reg j)) \<Rightarrow> False
      | (Some (qa, _), Some (qb, _)) \<Rightarrow> qa = qb
      | _ \<Rightarrow> False)"

text \<open>\<^verbatim>\<open>open(path, 'rb').read()\<close>: the bytes of the regular file at the end of the links.\<close>

definition read_bytes :: "state \<Rightarrow> path \<Rightarrow> string result" where
  "read_bytes s p =
     (if follow 40 s p = None then Raise OSError_other
      else case stat s p of
             None \<Rightarrow> Raise FileNotFoundError
           | Some (Dir _) \<Rightarrow> Raise IsADirectoryError
           | Some (Lnk _ _) \<Rightarrow> Raise OSError_other
           | Some (Reg i) \<Rightarrow> Ok (fst (inodes s i)))"

text \<open>
  \<^verbatim>\<open>open(path, 'wb')\<close> and writing \<open>bytes\<close>: an existing regular file (also at the end
  of symbolic links) is truncated and rewritten in place, in its inode; where nothing
  exists a new file with a new inode is made.
\<close>

definition write_inode :: "nat \<Rightarrow> string \<Rightarrow> state \<Rightarrow> state" where
  "write_inode i bytes s =
     s\<lparr>inodes := (inodes s)(i := (bytes, (snd (inodes s i))\<lparr>st_mtime := clock s\<rparr>))\<rparr>"

definition create_file :: "path \<Rightarrow> string \<Rightarrow> state \<Rightarrow> state" where
  "create_file p bytes s =
     set_entry p (Reg (next_ino s))
       (s\<lparr>inodes := (inodes s)(next_ino s := (bytes, new_meta 420 s)),
          next_ino := Suc (next_ino s)\<rparr>)"

definition write_bytes :: "path \<Rightarrow> string \<Rightarrow> state \<Rightarrow> unit result \<times> state" where
  "write_bytes p bytes s =
     (case follow 40 s p of
        None \<Rightarrow> (Raise OSError_other, s)
      | Some q \<Rightarrow>
          (case lookup s q of
             Some (Reg i) \<Rightarrow> (Ok (), write_inode i bytes s)
           | Some (Dir _) \<Rightarrow> (Raise IsADirectoryError, s)
           | Some (Lnk _ _) \<Rightarrow> (Raise OSError_other, s)
           | None \<Rightarrow>
               (case parent_error s q of
                  Some e \<Rightarrow> (Raise e, s)
                | None \<Rightarrow> (Ok (), create_file q bytes s))))"

text \<open>\<^verbatim>\<open>shutil.copyfile(src, dst, follow_symlinks=...)\<close>.\<close>

definition copyfile :: "path \<Rightarrow> path \<Rightarrow> bool \<Rightarrow> state \<Rightarrow> unit result \<times> state" where
  "copyfile src dst follow_symlinks s =
     (if samefile s src dst then (Raise SameFileError, s)
      else if \<not> follow_symlinks \<and> islink s src then os_symlink (readlink s src) dst s
      else case read_bytes s src of
             Raise e \<Rightarrow> (Raise e, s)
           | Ok bytes \<Rightarrow> write_bytes dst bytes s)"

text \<open>
  \<^verbatim>\<open>shutil.copystat(src, dst, follow_symlinks=...)\<close>: the permission bits and the
  modification time of \<open>src\<close> onto \<open>dst\<close>. Links are followed unless
  \<^verbatim>\<open>follow_symlinks\<close> is false and both are symbolic links.
\<close>

definition copystat :: "path \<Rightarrow> path \<Rightarrow> bool \<Rightarrow> state \<Rightarrow> unit result \<times> state" where
  "copystat src dst follow_symlinks s =
     (let fl = (follow_symlinks \<or> \<not> (islink s src \<and> islink s dst)) in
      case os_stat fl s src of
        Raise e \<Rightarrow> (Raise e, s)
      | Ok st \<Rightarrow>
          (case (if fl then follow 40 s dst else Some dst) of
             None \<Rightarrow> (Raise OSError_other, s)
           | Some q \<Rightarrow>
               (case lookup s q of
                  None \<Rightarrow> (Raise FileNotFoundError, s)
                | Some nd \<Rightarrow>
                    (Ok (), map_meta (\<lambda>m. m\<lparr>st_mode := st_mode st, st_mtime := st_mtime st\<rparr>)
                              q nd s))))"

text \<open>
  \<^verbatim>\<open>shutil.copy2(src, dst, follow_symlinks=...)\<close>: when \<open>dst\<close> is a directory the copy
  goes into it, under the base name of \<open>src\<close>.
\<close>

definition copy2 :: "path \<Rightarrow> path \<Rightarrow> bool \<Rightarrow> state \<Rightarrow> unit result \<times> state" where
  "copy2 src dst follow_symlinks s =
     (let dst' = (if isdir s dst then dst @ basename src else dst) in
      case copyfile src dst' follow_symlinks s of
        (Raise e, s1) \<Rightarrow> (Raise e, s1)
      | (Ok u, s1) \<Rightarrow> copystat src dst' follow_symlinks s1)"

definition log_msg :: "level \<Rightarrow> path \<Rightarrow> error \<Rightarrow> state \<Rightarrow> state" where
  "log_msg l p e s = s\<lparr>logged := logged s @ [Log l p e]\<rparr>"

section \<open>The program: \<^verbatim>\<open>snapcraft/file_utils.py\<close>\<close>

subsection \<open>\<^verbatim>\<open>create_similar_directory\<close>\<close>

definition create_similar_directory ::
  "path \<Rightarrow> path \<Rightarrow> bool \<Rightarrow> state \<Rightarrow> unit result \<times> state" where
  "create_similar_directory source destination follow_symlinks s =
     (case os_stat follow_symlinks s source of
        Raise e \<Rightarrow> (Raise e, s)
      | Ok st \<Rightarrow>
          (case makedirs destination s of
             (Raise e, s1) \<Rightarrow> (Raise e, s1)
           | (Ok u, s1) \<Rightarrow>
               (case os_chown destination (st_uid st) (st_gid st) follow_symlinks s1 of
                  (Raise e, s2) \<Rightarrow>
                    if e = PermissionError
                    then copystat source destination follow_symlinks
                           (log_msg Debug destination e s2)
                    else (Raise e, s2)
                | (Ok v, s2) \<Rightarrow> copystat source destination follow_symlinks s2)))"

subsection \<open>\<^verbatim>\<open>link_or_copy\<close>\<close>

text \<open>The \<^verbatim>\<open>try\<close> block: the effective source, the parent of the destination, the link.\<close>

definition link_or_copy_try :: "path \<Rightarrow> path \<Rightarrow> bool \<Rightarrow> state \<Rightarrow> unit result \<times> state" where
  "link_or_copy_try source destination follow_symlinks s =
     (let source_path = (if follow_symlinks then realpath s source else source) in
      case (if \<not> exists_path s (dirname destination)
            then create_similar_directory (dirname source_path) (dirname destination) False s
            else (Ok (), s)) of
        (Raise e, s1) \<Rightarrow> (Raise e, s1)
      | (Ok u, s1) \<Rightarrow> os_link source_path destination s1)"

text \<open>The \<^verbatim>\<open>except OSError\<close> block.\<close>

definition link_or_copy_except :: "path \<Rightarrow> path \<Rightarrow> bool \<Rightarrow> state \<Rightarrow> unit result \<times> state" where
  "link_or_copy_except source destination follow_symlinks s =
     (let s1 = snd (os_unlink destination s) in
      case copy2 source destination follow_symlinks s1 of
        (Raise e, s2) \<Rightarrow> (Raise e, s2)
      | (Ok u, s2) \<Rightarrow>
          (case os_stat follow_symlinks s2 source of
             Raise e \<Rightarrow> (Raise e, s2)
           | Ok st \<Rightarrow>
               (case os_chown destination (st_uid st) (st_gid st) follow_symlinks s2 of
                  (Raise e, s3) \<Rightarrow>
                    if e = PermissionError then (Ok (), log_msg Debug destination e s3)
                    else (Raise e, s3)
                | (Ok v, s3) \<Rightarrow> (Ok (), s3))))"

definition link_or_copy :: "path \<Rightarrow> path \<Rightarrow> bool \<Rightarrow> state \<Rightarrow> unit result \<times> state" where
  "link_or_copy source destination follow_symlinks s =
     (case link_or_copy_try source destination follow_symlinks s of
        (Raise e, s1) \<Rightarrow>
          if is_OSError e then link_or_copy_except source destination follow_symlinks s1
          else (Raise e, s1)
      | (Ok u, s1) \<Rightarrow> (Ok (), s1))"

subsection \<open>\<^verbatim>\<open>os.walk\<close>\<close>

text \<open>
  What a tree operation does, in order: \<open>Yield\<close> is a triple \<^verbatim>\<open>(root, directories, files)\<close>
  that \<^verbatim>\<open>os.walk\<close> yields, \<open>Clone\<close> is a call of \<^verbatim>\<open>create_similar_directory\<close>, \<open>Copy\<close> a
  call of the copy function, and \<open>Rewrite\<close> a call of \<^verbatim>\<open>search_and_replace_contents\<close>.
\<close>

datatype event =
  Yield path "string list" "string list" | Clone path path | Copy path path | Rewrite path

type_synonym walked = "unit result \<times> state \<times> event list"

text \<open>
  \<^verbatim>\<open>os.scandir\<close> as \<^verbatim>\<open>os.walk\<close> uses it: the names in the directory, those for which
  \<^verbatim>\<open>entry.is_dir()\<close> holds (it follows symbolic links) apart from the others. \<open>None\<close>
  when \<open>tp\<close> cannot be listed; \<^verbatim>\<open>os.walk\<close> then yields nothing.
\<close>

definition listdir :: "state \<Rightarrow> path \<Rightarrow> string list" where
  "listdir s d = map (last \<circ> fst) (filter (\<lambda>(q, nd). q \<noteq> [] \<and> butlast q = d) (entries s))"

definition scandir :: "state \<Rightarrow> path \<Rightarrow> (string list \<times> string list) option" where
  "scandir s tp =
     (case stat_path s tp of
        Some (d, Dir m) \<Rightarrow> Some (partition (\<lambda>n. isdir s (d @ [n])) (listdir s d))
      | _ \<Rightarrow> None)"

text \<open>
  \<^verbatim>\<open>os.walk(top)\<close> (\<open>tp\<close> is its \<^verbatim>\<open>top\<close>), top-down, with the body of the caller's
  \<^verbatim>\<open>for\<close> loop run on each triple as it is yielded. The file system changes while the
  walk goes on, and a walk into a tree that grows under it does not end: the first
  argument bounds the depth, and \<open>None\<close> is "not finished within this depth".
  \<open>walk_dirs\<close> is the loop over the subdirectories after the yield, which leaves out
  those that are symbolic links when it comes to them; \<open>rec\<close> is the walk of one
  subdirectory.
\<close>

fun walk_dirs :: "(path \<Rightarrow> state \<Rightarrow> walked option) \<Rightarrow> path \<Rightarrow> string list \<Rightarrow> state \<Rightarrow> walked option" where
  "walk_dirs rec tp [] s = Some (Ok (), s, [])"
| "walk_dirs rec tp (d # ds) s =
     (if islink s (tp @ [d]) then walk_dirs rec tp ds s
      else case rec (tp @ [d]) s of
             None \<Rightarrow> None
           | Some (Raise e, s1, t1) \<Rightarrow> Some (Raise e, s1, t1)
           | Some (Ok u, s1, t1) \<Rightarrow>
               (case walk_dirs rec tp ds s1 of
                  None \<Rightarrow> None
                | Some (r, s2, t2) \<Rightarrow> Some (r, s2, t1 @ t2)))"

primrec os_walk ::
  "nat \<Rightarrow> (path \<Rightarrow> string list \<Rightarrow> string list \<Rightarrow> state \<Rightarrow> walked) \<Rightarrow> path \<Rightarrow> state \<Rightarrow> walked option" where
  "os_walk 0 body tp s = None"
| "os_walk (Suc n) body tp s =
     (case scandir s tp of
        None \<Rightarrow> Some (Ok (), s, [])
      | Some (dirs, nondirs) \<Rightarrow>
          (case body tp dirs nondirs s of
             (Raise e, s1, t1) \<Rightarrow> Some (Raise e, s1, Yield tp dirs nondirs # t1)
           | (Ok u, s1, t1) \<Rightarrow>
               (case walk_dirs (os_walk n body) tp dirs s1 of
                  None \<Rightarrow> None
                | Some (r, s2, t2) \<Rightarrow> Some (r, s2, Yield tp dirs nondirs # t1 @ t2))))"

subsection \<open>\<^verbatim>\<open>link_or_copy_tree\<close>\<close>

text \<open>
  The loop over \<^verbatim>\<open>directories\<close>: a symbolic link is appended to \<^verbatim>\<open>files\<close>, any other
  entry gets its destination directory. The result is the list \<^verbatim>\<open>files\<close> as the second
  loop finds it.
\<close>

fun copy_dirs ::
  "path \<Rightarrow> path \<Rightarrow> path \<Rightarrow> string list \<Rightarrow> string list \<Rightarrow> state
     \<Rightarrow> string list result \<times> state \<times> event list" where
  "copy_dirs source_tree destination_tree root [] files s = (Ok files, s, [])"
| "copy_dirs source_tree destination_tree root (directory # ds) files s =
     (let source = root @ [directory] in
      if islink s source
      then copy_dirs source_tree destination_tree root ds (files @ [directory]) s
      else let destination = destination_tree @ relpath source source_tree in
           case create_similar_directory source destination False s of
             (Raise e, s1) \<Rightarrow> (Raise e, s1, [Clone source destination])
           | (Ok u, s1) \<Rightarrow>
               (case copy_dirs source_tree destination_tree root ds files s1 of
                  (r, s2, tr) \<Rightarrow> (r, s2, Clone source destination # tr)))"

fun copy_files ::
  "(path \<Rightarrow> path \<Rightarrow> state \<Rightarrow> unit result \<times> state) \<Rightarrow> path \<Rightarrow> path \<Rightarrow> path
     \<Rightarrow> string list \<Rightarrow> state \<Rightarrow> walked" where
  "copy_files copy_function source_tree destination_tree root [] s = (Ok (), s, [])"
| "copy_files copy_function source_tree destination_tree root (file_name # fs) s =
     (let source = root @ [file_name];
          destination = destination_tree @ relpath source source_tree in
      case copy_function source destination s of
        (Raise e, s1) \<Rightarrow> (Raise e, s1, [Copy source destination])
      | (Ok u, s1) \<Rightarrow>
          (case copy_files copy_function source_tree destination_tree root fs s1 of
             (r, s2, tr) \<Rightarrow> (r, s2, Copy source destination # tr)))"

definition copy_entries ::
  "(path \<Rightarrow> path \<Rightarrow> state \<Rightarrow> unit result \<times> state) \<Rightarrow> path \<Rightarrow> path \<Rightarrow> path
     \<Rightarrow> string list \<Rightarrow> string list \<Rightarrow> state \<Rightarrow> walked" where
  "copy_entries copy_function source_tree destination_tree root directories files s =
     (case copy_dirs source_tree destination_tree root directories files s of
        (Raise e, s1, t1) \<Rightarrow> (Raise e, s1, t1)
      | (Ok files', s1, t1) \<Rightarrow>
          (case copy_files copy_function source_tree destination_tree root files' s1 of
             (r, s2, t2) \<Rightarrow> (r, s2, t1 @ t2)))"


definition link_or_copy_tree ::
  "nat \<Rightarrow> (path \<Rightarrow> path \<Rightarrow> state \<Rightarrow> unit result \<times> state) \<Rightarrow> path \<Rightarrow> path \<Rightarrow> state
     \<Rightarrow> walked option" where
  "link_or_copy_tree fuel copy_function source_tree destination_tree s =
     (if \<not> isdir s source_tree then Some (Raise NotADirectoryError, s, [])
      else if \<not> isdir s destination_tree \<and> exists_path s destination_tree
      then Some (Raise NotADirectoryError, s, [])
      else case create_similar_directory source_tree destination_tree False s of
             (Raise e, s1) \<Rightarrow> Some (Raise e, s1, [Clone source_tree destination_tree])
           | (Ok u, s1) \<Rightarrow>
               (case os_walk fuel (copy_entries copy_function source_tree destination_tree)
                       source_tree s1 of
                  None \<Rightarrow> None
                | Some (r, s2, tr) \<Rightarrow> Some (r, s2, Clone source_tree destination_tree # tr)))"

subsection \<open>\<^verbatim>\<open>search_and_replace_contents\<close> and \<^verbatim>\<open>replace_in_file\<close>\<close>

text \<open>
  A compiled pattern, as far as the program uses one: \<^verbatim>\<open>pattern.match(name)\<close> read as a
  truth value, and \<^verbatim>\<open>pattern.sub(replacement, text)\<close>.
\<close>

record pattern =
  pmatch :: "string \<Rightarrow> bool"
  psub :: "string \<Rightarrow> string \<Rightarrow> string"

definition search_and_replace_contents ::
  "path \<Rightarrow> pattern \<Rightarrow> string \<Rightarrow> state \<Rightarrow> unit result \<times> state" where
  "search_and_replace_contents file_path search_pattern replacement s =
     (case stat_path s file_path of
        None \<Rightarrow>
          (Raise (if follow 40 s file_path = None then OSError_other else FileNotFoundError), s)
      | Some (q, Dir m) \<Rightarrow> (Raise IsADirectoryError, s)
      | Some (q, Lnk t m) \<Rightarrow> (Raise OSError_other, s)
      | Some (q, Reg i) \<Rightarrow>
          if open_refused s q
          then (Ok (), log_msg Warning file_path PermissionError s)
          else (case decode s (fst (inodes s i)) of
                  None \<Rightarrow> (Ok (), s)
                | Some original \<Rightarrow>
                    (let replaced = psub search_pattern replacement original in
                     if replaced \<noteq> original
                     then (Ok (), write_inode i (encode s replaced) s)
                     else (Ok (), s))))"

fun replace_files :: "pattern \<Rightarrow> pattern \<Rightarrow> string \<Rightarrow> path \<Rightarrow> string list \<Rightarrow> state \<Rightarrow> walked" where
  "replace_files file_pattern search_pattern replacement root [] s = (Ok (), s, [])"
| "replace_files file_pattern search_pattern replacement root (file_name # fs) s =
     (if pmatch file_pattern file_name \<and> \<not> islink s (root @ [file_name])
      then case search_and_replace_contents (root @ [file_name]) search_pattern replacement s of
             (Raise e, s1) \<Rightarrow> (Raise e, s1, [Rewrite (root @ [file_name])])
           | (Ok u, s1) \<Rightarrow>
               (case replace_files file_pattern search_pattern replacement root fs s1 of
                  (r, s2, tr) \<Rightarrow> (r, s2, Rewrite (root @ [file_name]) # tr))
      else replace_files file_pattern search_pattern replacement root fs s)"

definition replace_in_file ::
  "nat \<Rightarrow> path \<Rightarrow> pattern \<Rightarrow> pattern \<Rightarrow> string \<Rightarrow> state \<Rightarrow> walked option" where
  "replace_in_file fuel directory file_pattern search_pattern replacement s =
     os_walk fuel
       (\<lambda>root directories files. replace_files file_pattern search_pattern replacement root files)
       directory s"

subsection \<open>\<^verbatim>\<open>calculate_hash\<close>\<close>

text \<open>
  What \<^verbatim>\<open>getattr(hashlib, algorithm)\<close> can find is a parameter, the namespace of the
  module: a name may be missing (\<^verbatim>\<open>AttributeError\<close>), it may be the constructor of a hash
  object, or it may be something else that the module holds. A call \<^verbatim>\<open>attr()\<close> of
  something else raises \<^verbatim>\<open>TypeError\<close> when it is not callable or needs arguments (as
  \<^verbatim>\<open>hashlib.new\<close> does); when it returns an object that is no hash object, the
  \<^verbatim>\<open>update\<close> or \<^verbatim>\<open>hexdigest\<close> that comes after the file is opened raises \<^verbatim>\<open>AttributeError\<close>.
  A hash object is the function from the blocks it was fed to its hexadecimal digest;
  the hash objects of the \<^verbatim>\<open>shake\<close> algorithms want a length in \<^verbatim>\<open>hexdigest\<close>, so for them
  \<^verbatim>\<open>hasher.hexdigest()\<close> raises \<^verbatim>\<open>TypeError\<close> once the file is read.
\<close>

datatype attr =
    Constructor "string list \<Rightarrow> string"
  | Constructor_with_length
  | Not_callable
  | Needs_arguments
  | Returns_other

text \<open>The loop \<^verbatim>\<open>buf = f.read(blocksize)\<close> until \<open>buf\<close> is empty: the blocks of the file.\<close>

function blocks :: "nat \<Rightarrow> string \<Rightarrow> string list" where
  "blocks blocksize bytes =
     (if blocksize = 0 \<or> bytes = [] then []
      else take blocksize bytes # blocks blocksize (drop blocksize bytes))"
  by pat_completeness auto
termination
  by (relation "measure (\<lambda>(blocksize, bytes). length bytes)") auto

definition calculate_hash ::
  "(string \<Rightarrow> attr option) \<Rightarrow> state \<Rightarrow> path \<Rightarrow> string \<Rightarrow> string result" where
  "calculate_hash hashlib s path algorithm =
     (case hashlib algorithm of
        None \<Rightarrow> Raise AttributeError
      | Some Not_callable \<Rightarrow> Raise TypeError
      | Some Needs_arguments \<Rightarrow> Raise TypeError
      | Some Constructor_with_length \<Rightarrow>
          (case read_bytes s path of
             Raise e \<Rightarrow> Raise e
           | Ok bytes \<Rightarrow> Raise TypeError)
      | Some Returns_other \<Rightarrow>
          (case read_bytes s path of
             Raise e \<Rightarrow> Raise e
           | Ok bytes \<Rightarrow> Raise AttributeError)
      | Some (Constructor hexdigest) \<Rightarrow>
          (case read_bytes s path of
             Raise e \<Rightarrow> Raise e
           | Ok bytes \<Rightarrow> Ok (hexdigest (blocks (2 ^ 20) bytes))))"

definition calculate_sha3_384 :: "(string \<Rightarrow> attr option) \<Rightarrow> state \<Rightarrow> path \<Rightarrow> string result" where
  "calculate_sha3_384 hashlib s path = calculate_hash hashlib s path ''sha3_384''"

section \<open>Concrete inputs\<close>

text \<open>
  A small file system for the examples: user 1000, no refusals, text read and written byte
  for byte when every byte is below 128 (and not decodable otherwise).
\<close>

definition m0 :: meta where
  "m0 = \<lparr>st_uid = 0, st_gid = 0, st_mode = 493, st_mtime = 1\<rparr>"

definition ascii_decode :: "string \<Rightarrow> string option" where
  "ascii_decode b = (if list_all (\<lambda>c. (of_char c :: nat) < 128) b then Some b else None)"

definition mk_state :: "(path \<times> node) list \<Rightarrow> (nat \<Rightarrow> string \<times> meta) \<Rightarrow> state" where
  "mk_state es ino =
     \<lparr>entries = es, inodes = ino, next_ino = 100, clock = 50, euid = 1000, egid = 1000,
      link_refused = (\<lambda>a b. False), chown_refused = (\<lambda>p. False), open_refused = (\<lambda>p. False),
      decode = ascii_decode, encode = id, logged = []\<rparr>"

text \<open>
  \<^verbatim>\<open>/src/a\<close> is a file holding \<^verbatim>\<open>new\<close>; \<^verbatim>\<open>/dst/a\<close> is a directory that holds a file
  \<^verbatim>\<open>a\<close> with the bytes \<^verbatim>\<open>old\<close>.
\<close>

definition fs_dir_at_dst :: state where
  "fs_dir_at_dst =
     mk_state [([], Dir m0), ([''src''], Dir m0), ([''src'', ''a''], Reg 1), ([''dst''], Dir m0),
               ([''dst'', ''a''], Dir m0), ([''dst'', ''a'', ''a''], Reg 2)]
              ((\<lambda>i. ([], m0))(1 := (''new'', m0), 2 := (''old'', m0)))"

text \<open>
  \<^verbatim>\<open>/src\<close> holds a file \<^verbatim>\<open>f\<close>, a directory \<^verbatim>\<open>d\<close> with a file \<^verbatim>\<open>g\<close>, and a symbolic link
  \<^verbatim>\<open>l\<close> to \<^verbatim>\<open>/src/d\<close>; \<^verbatim>\<open>/dst\<close> holds a file \<^verbatim>\<open>keep\<close> only.
\<close>

definition fs_tree :: state where
  "fs_tree =
     mk_state [([], Dir m0), ([''src''], Dir m0), ([''src'', ''f''], Reg 1),
               ([''src'', ''d''], Dir m0), ([''src'', ''d'', ''g''], Reg 2),
               ([''src'', ''l''], Lnk [''src'', ''d''] m0),
               ([''dst''], Dir m0), ([''dst'', ''keep''], Reg 3)]
              ((\<lambda>i. ([], m0))(1 := (''one'', m0), 2 := (''two'', m0), 3 := (''three'', m0)))"


text \<open>
  The compiled pattern \<^verbatim>\<open>re.compile('a')\<close>: it matches a name that starts with \<^verbatim>\<open>a\<close>, and
  \<^verbatim>\<open>sub\<close> puts the replacement (a text without escapes) for every \<^verbatim>\<open>a\<close>.
\<close>

definition pattern_a :: pattern where
  "pattern_a =
     \<lparr>pmatch = (\<lambda>name. case name of [] \<Rightarrow> False | c # cs \<Rightarrow> c = CHR ''a''),
      psub = (\<lambda>replacement text.
                concat (map (\<lambda>c. if c = CHR ''a'' then replacement else [c]) text))\<rparr>"

text \<open>A file \<^verbatim>\<open>/t/a.txt\<close> with the text \<^verbatim>\<open>banana\<close>, a file \<^verbatim>\<open>/t/a.bin\<close> whose bytes are not
  text, and a symbolic link \<^verbatim>\<open>/t/a.lnk\<close> to the text file.\<close>

definition fs_text :: state where
  "fs_text =
     mk_state [([], Dir m0), ([''t''], Dir m0), ([''t'', ''a.bin''], Reg 2),
               ([''t'', ''a.txt''], Reg 1), ([''t'', ''a.lnk''], Lnk [''t'', ''a.txt''] m0)]
              ((\<lambda>i. ([], m0))(1 := (''banana'', m0), 2 := ([CHR 0xFF, CHR ''a''], m0)))"

text \<open>
  Ways of running a command: the file is found and may not be executed; the path of the
  executable goes through a regular file; only \<^verbatim>\<open>ls -l /\<close> is a command that is found,
  and it exits with status 0.
\<close>

definition run_refused :: "string list \<Rightarrow> proc_outcome" where
  "run_refused cmd_list = Raises PermissionError"

definition run_under_file :: "string list \<Rightarrow> proc_outcome" where
  "run_under_file cmd_list = Raises NotADirectoryError"

definition run_ls :: "string list \<Rightarrow> proc_outcome" where
  "run_ls cmd_list =
     (if cmd_list = [''ls'', ''-l'', ''/''] then Exited 0 else Raises FileNotFoundError)"

definition run_exit :: "int \<Rightarrow> string list \<Rightarrow> proc_outcome" where
  "run_exit n cmd_list = Exited n"





definition trace_of :: "walked option \<Rightarrow> event list option" where
  "trace_of w = map_option (\<lambda>x. snd (snd x)) w"

text \<open>
  A copy function that resolves a symbolic link in place: where its source is a symbolic
  link it puts a directory, and it leaves every other source alone.
\<close>

definition resolve_in_place :: "path \<Rightarrow> path \<Rightarrow> state \<Rightarrow> unit result \<times> state" where
  "resolve_in_place source destination s =
     (if islink s source then (Ok (), set_entry source (Dir m0) s) else (Ok (), s))"
section \<open>Notions for stating what an operation leaves alone\<close>

text \<open>
  The kind of a node is the node without its \<^verbatim>\<open>stat\<close> fields: a directory, a symbolic link
  to a path, or the regular file of an inode number.
\<close>

datatype kind = KDir | KLnk path | KReg nat

definition kind_of :: "node \<Rightarrow> kind" where
  "kind_of nd = (case nd of Dir m \<Rightarrow> KDir | Lnk t m \<Rightarrow> KLnk t | Reg i \<Rightarrow> KReg i)"

definition kinds :: "state \<Rightarrow> path \<Rightarrow> kind option" where
  "kinds s p = map_option kind_of (lookup s p)"

text \<open>
  Outside the paths \<open>B\<close>, an operation from \<open>s\<close> to \<open>s'\<close> changed no entry's kind, but it
  may have made directories at paths of \<open>D\<close> where nothing was.
\<close>

definition kframe :: "path set \<Rightarrow> path set \<Rightarrow> state \<Rightarrow> state \<Rightarrow> bool" where
  "kframe B D s s' =
     (\<forall>q. q \<notin> B \<longrightarrow>
        kinds s' q = kinds s q \<or> (q \<in> D \<and> kinds s q = None \<and> kinds s' q = Some KDir))"

text \<open>Outside the paths \<open>B\<close>, the same paths are symbolic links before and after.\<close>

definition lframe :: "path set \<Rightarrow> state \<Rightarrow> state \<Rightarrow> bool" where
  "lframe B s s' = (\<forall>q. q \<notin> B \<longrightarrow> islink s' q = islink s q)"

text \<open>The bytes of every file that existed are as they were; inode numbers are not used twice.\<close>

definition keeps_content :: "state \<Rightarrow> state \<Rightarrow> bool" where
  "keeps_content s s' =
     ((\<forall>j. j < next_ino s \<longrightarrow> fst (inodes s' j) = fst (inodes s j)) \<and> next_ino s \<le> next_ino s')"

text \<open>A well-formed table: whatever has an entry lies in a directory.\<close>

definition wf_fs :: "state \<Rightarrow> bool" where
  "wf_fs s = (\<forall>q. q \<noteq> [] \<longrightarrow> kinds s q \<noteq> None \<longrightarrow> kinds s (butlast q) = Some KDir)"

text \<open>The three together: what an operation from \<open>s\<close> to \<open>s'\<close> may have changed.\<close>

definition changes :: "path set \<Rightarrow> path set \<Rightarrow> state \<Rightarrow> state \<Rightarrow> bool" where
  "changes B D s s' = (kframe B D s s' \<and> keeps_content s s' \<and> (wf_fs s \<longrightarrow> wf_fs s'))"


text \<open>
  For the merge of a source tree \<open>src\<close> into a destination tree \<open>dst\<close>, and a file of the
  destination at the relative path \<open>r\<close> with inode number \<open>i\<close>: what holds of the state
  all through the copy, and how the state after a step relates to the state before it.
\<close>

definition merge_inv :: "path \<Rightarrow> path \<Rightarrow> path \<Rightarrow> nat \<Rightarrow> state \<Rightarrow> bool" where
  "merge_inv src dst r i s =
     (wf_fs s \<and> kinds s src = Some KDir \<and>
      kinds s (dst @ r) = Some (KReg i) \<and> kinds s (src @ r) = None \<and> i < next_ino s \<and>
      (\<forall>x. kinds s (dst @ x) = Some KDir \<longrightarrow>
           kinds s (src @ x) = None \<or> kinds s (src @ x) = Some KDir))"

definition merge_rel :: "path \<Rightarrow> path \<Rightarrow> path \<Rightarrow> nat \<Rightarrow> state \<Rightarrow> state \<Rightarrow> bool" where
  "merge_rel src dst r i s s' =
     (merge_inv src dst r i s \<longrightarrow>
        merge_inv src dst r i s' \<and> fst (inodes s' i) = fst (inodes s i) \<and>
        (\<forall>x. kinds s' (src @ x) = kinds s (src @ x)))"



text \<open>
  What a reader finds at a path: the bytes of a regular file, or the path a symbolic link
  points to, each with the permission bits and the modification time; nothing for a
  directory and where no entry is. With \<open>follow_symlinks\<close> the symbolic links at the path
  are followed first, as \<^verbatim>\<open>stat\<close> does, otherwise the entry itself is looked at.
\<close>

datatype view = File string nat nat | Link path nat nat

definition view_node :: "state \<Rightarrow> node \<Rightarrow> view option" where
  "view_node s nd =
     (case nd of
        Dir m \<Rightarrow> None
      | Lnk t m \<Rightarrow> Some (Link t (st_mode m) (st_mtime m))
      | Reg i \<Rightarrow> Some (File (fst (inodes s i)) (st_mode (snd (inodes s i)))
                          (st_mtime (snd (inodes s i)))))"

definition view :: "bool \<Rightarrow> state \<Rightarrow> path \<Rightarrow> view option" where
  "view follow_symlinks s p =
     (case (if follow_symlinks then stat s p else lookup s p) of
        None \<Rightarrow> None
      | Some nd \<Rightarrow> view_node s nd)"
section \<open>Evaluating the concrete inputs\<close>

lemmas example_defs =
  m0_def ascii_decode_def mk_state_def fs_dir_at_dst_def fs_tree_def pattern_a_def fs_text_def

lemmas fs_defs =
  lookup_def set_entry_def del_entry_def new_meta_def meta_of_def map_meta_def stat_path_def
  stat_def realpath_def isdir_def exists_path_def islink_def dirname_def basename_def
  relpath_def os_stat_def parent_error_def os_mkdir_def os_chown_def os_link_def os_unlink_def
  os_symlink_def readlink_def samefile_def read_bytes_def write_inode_def create_file_def
  write_bytes_def copyfile_def copystat_def copy2_def log_msg_def listdir_def scandir_def

lemmas prog_defs =
  create_similar_directory_def link_or_copy_try_def link_or_copy_except_def link_or_copy_def
  copy_entries_def link_or_copy_tree_def search_and_replace_contents_def replace_in_file_def
  calculate_hash_def


lemma follow_numeral:
  "follow (numeral k) s p =
     (case lookup s p of Some (Lnk t m) \<Rightarrow> follow (pred_numeral k) s t | _ \<Rightarrow> Some p)"
  by (simp add: numeral_eq_Suc)

lemma os_walk_numeral:
  "os_walk (numeral k) body tp s =
     (case scandir s tp of
        None \<Rightarrow> Some (Ok (), s, [])
      | Some (dirs, nondirs) \<Rightarrow>
          (case body tp dirs nondirs s of
             (Raise e, s1, t1) \<Rightarrow> Some (Raise e, s1, Yield tp dirs nondirs # t1)
           | (Ok u, s1, t1) \<Rightarrow>
               (case walk_dirs (os_walk (pred_numeral k) body) tp dirs s1 of
                  None \<Rightarrow> None
                | Some (r, s2, t2) \<Rightarrow> Some (r, s2, Yield tp dirs nondirs # t1 @ t2))))"
  by (simp add: numeral_eq_Suc)

section \<open>\<^verbatim>\<open>link_or_copy_tree\<close>: the checks before the copy\<close>

text \<open>
  C2. When the source tree is not a directory, and when the destination tree exists and is
  not a directory, \<^verbatim>\<open>link_or_copy_tree\<close> raises \<^verbatim>\<open>NotADirectoryError\<close>; the file system
  it leaves is the one it found, and no call was made. This holds for every copy function
  and every bound on the depth of the walk. "Is a directory" and "exists" are
  \<^verbatim>\<open>os.path.isdir\<close> and \<^verbatim>\<open>os.path.exists\<close>, which follow symbolic links.
\<close>

theorem link_or_copy_tree_not_a_directory:
  "(\<not> isdir s source_tree \<longrightarrow>
      link_or_copy_tree fuel copy_function source_tree destination_tree s =
        Some (Raise NotADirectoryError, s, [])) \<and>
   (exists_path s destination_tree \<and> \<not> isdir s destination_tree \<longrightarrow>
      link_or_copy_tree fuel copy_function source_tree destination_tree s =
        Some (Raise NotADirectoryError, s, []))"
  by (simp add: link_or_copy_tree_def)

theorem link_or_copy_tree_not_a_directory_witness:
  "\<not> isdir fs_tree [''src'', ''f''] \<and>
   link_or_copy_tree 0 (\<lambda>a b. link_or_copy a b False) [''src'', ''f''] [''dst''] fs_tree =
     Some (Raise NotADirectoryError, fs_tree, []) \<and>
   isdir fs_tree [''src''] \<and> exists_path fs_tree [''dst'', ''keep''] \<and>
   \<not> isdir fs_tree [''dst'', ''keep''] \<and>
   link_or_copy_tree 0 (\<lambda>a b. link_or_copy a b False) [''src''] [''dst'', ''keep''] fs_tree =
     Some (Raise NotADirectoryError, fs_tree, [])"
  using link_or_copy_tree_not_a_directory
          [of fs_tree "[''src'', ''f'']" 0 "\<lambda>a b. link_or_copy a b False" "[''dst'']"]
        link_or_copy_tree_not_a_directory
          [of fs_tree "[''src'']" 0 "\<lambda>a b. link_or_copy a b False" "[''dst'', ''keep'']"]
  by (simp add: isdir_def exists_path_def stat_def stat_path_def follow_numeral lookup_def
        fs_tree_def mk_state_def)

section \<open>Operations that keep the table of entries\<close>

lemma lookup_cong: "entries s' = entries s \<Longrightarrow> lookup s' = lookup s"
  by (rule ext) (simp add: lookup_def)

lemma follow_cong: "lookup s' = lookup s \<Longrightarrow> follow n s' p = follow n s p"
  by (induction n arbitrary: p) (auto split: option.splits node.splits)

lemma stat_path_cong:
  assumes "lookup s' = lookup s"
  shows "stat_path s' p = stat_path s p"
  unfolding stat_path_def follow_cong [OF assms] assms ..

lemma islink_cong:
  assumes "lookup s' = lookup s"
  shows "islink s' p = islink s p"
  unfolding islink_def assms ..

lemma write_inode_fields [simp]:
  "entries (write_inode i b s) = entries s"
  "inodes (write_inode i b s) j = (if j = i then (b, (snd (inodes s i))\<lparr>st_mtime := clock s\<rparr>) else inodes s j)"
  "open_refused (write_inode i b s) = open_refused s"
  "decode (write_inode i b s) = decode s"
  "encode (write_inode i b s) = encode s"
  "clock (write_inode i b s) = clock s"
  "next_ino (write_inode i b s) = next_ino s"
  "logged (write_inode i b s) = logged s"
  by (simp_all add: write_inode_def)

lemma log_msg_fields [simp]:
  "entries (log_msg l p e s) = entries s"
  "inodes (log_msg l p e s) = inodes s"
  "open_refused (log_msg l p e s) = open_refused s"
  "chown_refused (log_msg l p e s) = chown_refused s"
  "link_refused (log_msg l p e s) = link_refused s"
  "decode (log_msg l p e s) = decode s"
  "encode (log_msg l p e s) = encode s"
  "clock (log_msg l p e s) = clock s"
  "next_ino (log_msg l p e s) = next_ino s"
  "euid (log_msg l p e s) = euid s"
  "egid (log_msg l p e s) = egid s"
  "logged (log_msg l p e s) = logged s @ [Log l p e]"
  by (simp_all add: log_msg_def)

lemma lookup_write_inode [simp]: "lookup (write_inode i b s) = lookup s"
  by (rule lookup_cong) simp

lemma lookup_log_msg [simp]: "lookup (log_msg l p e s) = lookup s"
  by (rule lookup_cong) simp

lemma stat_path_write_inode [simp]: "stat_path (write_inode i b s) p = stat_path s p"
  by (rule stat_path_cong) simp

lemma stat_path_log_msg [simp]: "stat_path (log_msg l q e s) p = stat_path s p"
  by (rule stat_path_cong) simp

lemma islink_write_inode [simp]: "islink (write_inode i b s) p = islink s p"
  by (rule islink_cong) simp

lemma islink_log_msg [simp]: "islink (log_msg l q e s) p = islink s p"
  by (rule islink_cong) simp

section \<open>\<^verbatim>\<open>search_and_replace_contents\<close>\<close>

text \<open>The file system is the same in two states: the entries, and every file's bytes and
  \<^verbatim>\<open>stat\<close> fields (the modification time among them).\<close>

lemma search_and_replace_contents_entries:
  "entries (snd (search_and_replace_contents p pat rep s)) = entries s"
  by (simp add: search_and_replace_contents_def Let_def split: option.splits node.splits prod.splits)

lemma search_and_replace_contents_lookup:
  "lookup (snd (search_and_replace_contents p pat rep s)) = lookup s"
  by (rule lookup_cong) (rule search_and_replace_contents_entries)

lemma search_and_replace_contents_unchanged_text:
  assumes "stat_path s p = Some (q, Reg i)"
    and "decode s (fst (inodes s i)) = Some t"
    and "psub pat rep t = t"
  shows "inodes (snd (search_and_replace_contents p pat rep s)) = inodes s"
  using assms by (simp add: search_and_replace_contents_def)

text \<open>
  C5, as the code has it. \<^verbatim>\<open>search_and_replace_contents\<close> writes only when the substituted
  text differs from the text it read: when the pattern's substitution leaves the text of
  the file as it is, the call changes no entry, no content and no modification time. So a
  second call with the same pattern and replacement leaves the file system exactly as the
  first call left it (the same content as after one call, no write, the modification time
  unchanged) whenever substituting again in the substituted text changes nothing and the
  written bytes decode to the text that was written.
\<close>

theorem search_and_replace_contents_second_pass:
  assumes "\<forall>q i t. stat_path s p = Some (q, Reg i) \<and> decode s (fst (inodes s i)) = Some t \<longrightarrow>
             psub pat rep (psub pat rep t) = psub pat rep t \<and>
             decode s (encode s (psub pat rep t)) = Some (psub pat rep t)"
    and "s1 = snd (search_and_replace_contents p pat rep s)"
    and "s2 = snd (search_and_replace_contents p pat rep s1)"
  shows "entries s2 = entries s1 \<and> inodes s2 = inodes s1 \<and>
         (\<forall>q i t. stat_path s p = Some (q, Reg i) \<and> decode s (fst (inodes s i)) = Some t \<and>
            psub pat rep t = t \<longrightarrow> entries s1 = entries s \<and> inodes s1 = inodes s)"
proof (intro conjI)
  show "entries s2 = entries s1"
    using assms(3) by (simp add: search_and_replace_contents_entries)
  show "\<forall>q i t. stat_path s p = Some (q, Reg i) \<and> decode s (fst (inodes s i)) = Some t \<and>
            psub pat rep t = t \<longrightarrow> entries s1 = entries s \<and> inodes s1 = inodes s"
    using assms(2)
    by (auto simp: search_and_replace_contents_entries
        search_and_replace_contents_unchanged_text)
  show "inodes s2 = inodes s1"
  proof (cases "stat_path s p")
    case None
    then show ?thesis
      using assms(2,3) by (simp add: search_and_replace_contents_def)
  next
    case (Some a)
    obtain q nd where a: "a = (q, nd)" by (cases a)
    show ?thesis
    proof (cases nd)
      case (Reg i)
      note st = Some [unfolded a Reg]
      show ?thesis
      proof (cases "open_refused s q")
        case True
        then show ?thesis
          using assms(2,3) st by (simp add: search_and_replace_contents_def)
      next
        case False
        note nr = False
        show ?thesis
        proof (cases "decode s (fst (inodes s i))")
          case None
          then show ?thesis
            using assms(2,3) st nr by (simp add: search_and_replace_contents_def)
        next
          case (Some t)
          from assms(1) st Some
          have idem: "psub pat rep (psub pat rep t) = psub pat rep t"
            and codec: "decode s (encode s (psub pat rep t)) = Some (psub pat rep t)"
            by blast+
          show ?thesis
          proof (cases "psub pat rep t = t")
            case True
            then show ?thesis
              using assms(2,3) st nr Some by (simp add: search_and_replace_contents_def)
          next
            case False
            then have s1: "s1 = write_inode i (encode s (psub pat rep t)) s"
              using assms(2) st nr Some by (simp add: search_and_replace_contents_def)
            show ?thesis
              using assms(3) st nr idem codec
              by (simp add: s1 search_and_replace_contents_def)
          qed
        qed
      qed
    qed (use assms(2,3) Some a in \<open>simp_all add: search_and_replace_contents_def\<close>)
  qed
qed

lemma pattern_a_sub_o:
  "psub pattern_a ''o'' (psub pattern_a ''o'' t) = psub pattern_a ''o'' t"
  by (induction t) (simp_all add: pattern_a_def)

theorem search_and_replace_contents_second_pass_witness:
  "fst (inodes (snd (search_and_replace_contents [''t'', ''a.txt''] pattern_a ''o'' fs_text)) 1)
     = ''bonono'' \<and>
   inodes (snd (search_and_replace_contents [''t'', ''a.txt''] pattern_a ''o''
               (snd (search_and_replace_contents [''t'', ''a.txt''] pattern_a ''o'' fs_text))))
     = inodes (snd (search_and_replace_contents [''t'', ''a.txt''] pattern_a ''o'' fs_text))"
proof -
  have st: "stat_path fs_text [''t'', ''a.txt''] = Some ([''t'', ''a.txt''], Reg 1)"
    by (simp add: stat_path_def follow_numeral lookup_def fs_text_def mk_state_def)
  have h: "\<forall>q i t. stat_path fs_text [''t'', ''a.txt''] = Some (q, Reg i) \<and>
             decode fs_text (fst (inodes fs_text i)) = Some t \<longrightarrow>
             psub pattern_a ''o'' (psub pattern_a ''o'' t) = psub pattern_a ''o'' t \<and>
             decode fs_text (encode fs_text (psub pattern_a ''o'' t)) = Some (psub pattern_a ''o'' t)"
    by (simp add: st pattern_a_sub_o)
       (simp add: fs_text_def mk_state_def ascii_decode_def pattern_a_def m0_def)
  have one: "fst (inodes (snd (search_and_replace_contents [''t'', ''a.txt''] pattern_a ''o'' fs_text)) 1)
     = ''bonono''"
    by (simp add: search_and_replace_contents_def st)
       (simp add: fs_text_def mk_state_def ascii_decode_def pattern_a_def m0_def)
  show ?thesis
    using search_and_replace_contents_second_pass [OF h refl refl] one by simp
qed

text \<open>
  The claim as the specification states it, for every pattern and replacement, fails:
  with the pattern \<^verbatim>\<open>a\<close> and the replacement \<^verbatim>\<open>aa\<close> the text \<^verbatim>\<open>banana\<close> becomes
  \<^verbatim>\<open>baanaanaa\<close> after one call and \<^verbatim>\<open>baaaanaaaanaaaa\<close> after two.
\<close>

theorem search_and_replace_contents_not_idempotent:
  "read_bytes (snd (search_and_replace_contents [''t'', ''a.txt''] pattern_a ''aa'' fs_text))
     [''t'', ''a.txt''] = Ok ''baanaanaa'' \<and>
   read_bytes (snd (search_and_replace_contents [''t'', ''a.txt''] pattern_a ''aa''
      (snd (search_and_replace_contents [''t'', ''a.txt''] pattern_a ''aa'' fs_text))))
     [''t'', ''a.txt''] = Ok ''baaaanaaaanaaaa'' \<and>
   read_bytes (snd (search_and_replace_contents [''t'', ''a.txt''] pattern_a ''aa''
      (snd (search_and_replace_contents [''t'', ''a.txt''] pattern_a ''aa'' fs_text))))
     [''t'', ''a.txt''] \<noteq>
   read_bytes (snd (search_and_replace_contents [''t'', ''a.txt''] pattern_a ''aa'' fs_text))
     [''t'', ''a.txt'']"
  by (simp add: search_and_replace_contents_def stat_path_def stat_def follow_numeral lookup_def
      read_bytes_def fs_text_def mk_state_def ascii_decode_def pattern_a_def m0_def write_inode_def)

text \<open>
  C6. A file whose bytes do not decode as text is left as it is and the call returns
  normally, with the whole state unchanged. A file that may not be opened for writing
  makes the call log a warning and return normally, with the file system unchanged. So
  in the loop of \<^verbatim>\<open>replace_in_file\<close> over the files of a directory such a file does not
  end the pass: the pass goes on with the files after it, from the same file system.
\<close>

theorem search_and_replace_contents_degrades:
  "(stat_path s p = Some (q, Reg i) \<and> \<not> open_refused s q \<and> decode s (fst (inodes s i)) = None
      \<longrightarrow> search_and_replace_contents p pat rep s = (Ok (), s)) \<and>
   (stat_path s p = Some (q, Reg i) \<and> open_refused s q
      \<longrightarrow> search_and_replace_contents p pat rep s = (Ok (), log_msg Warning p PermissionError s)) \<and>
   (stat_path s (root @ [f]) = Some (q', Reg i') \<and>
    (open_refused s q' \<or> decode s (fst (inodes s i')) = None) \<and>
    pmatch fpat f \<and> \<not> islink s (root @ [f])
      \<longrightarrow> (\<exists>s'. entries s' = entries s \<and> inodes s' = inodes s \<and>
            replace_files fpat pat rep root (f # fs) s =
              (case replace_files fpat pat rep root fs s' of
                 (r, s2, tr) \<Rightarrow> (r, s2, Rewrite (root @ [f]) # tr))))"
proof (intro conjI impI)
  assume "stat_path s p = Some (q, Reg i) \<and> \<not> open_refused s q \<and>
          decode s (fst (inodes s i)) = None"
  then show "search_and_replace_contents p pat rep s = (Ok (), s)"
    by (simp add: search_and_replace_contents_def)
next
  assume "stat_path s p = Some (q, Reg i) \<and> open_refused s q"
  then show "search_and_replace_contents p pat rep s = (Ok (), log_msg Warning p PermissionError s)"
    by (simp add: search_and_replace_contents_def)
next
  assume a: "stat_path s (root @ [f]) = Some (q', Reg i') \<and>
    (open_refused s q' \<or> decode s (fst (inodes s i')) = None) \<and>
    pmatch fpat f \<and> \<not> islink s (root @ [f])"
  show "\<exists>s'. entries s' = entries s \<and> inodes s' = inodes s \<and>
            replace_files fpat pat rep root (f # fs) s =
              (case replace_files fpat pat rep root fs s' of
                 (r, s2, tr) \<Rightarrow> (r, s2, Rewrite (root @ [f]) # tr))"
  proof (cases "open_refused s q'")
    case True
    with a have "search_and_replace_contents (root @ [f]) pat rep s =
        (Ok (), log_msg Warning (root @ [f]) PermissionError s)"
      by (simp add: search_and_replace_contents_def)
    with a show ?thesis
      by (intro exI [of _ "log_msg Warning (root @ [f]) PermissionError s"]) simp
  next
    case False
    with a have "search_and_replace_contents (root @ [f]) pat rep s = (Ok (), s)"
      by (simp add: search_and_replace_contents_def)
    with a show ?thesis
      by (intro exI [of _ s]) simp
  qed
qed

text \<open>
  In \<^verbatim>\<open>/t\<close> the file \<^verbatim>\<open>a.bin\<close> does not decode; the pass over \<^verbatim>\<open>a.bin\<close> and \<^verbatim>\<open>a.txt\<close>
  calls the rewrite on both, returns normally and has rewritten \<^verbatim>\<open>a.txt\<close>.
\<close>

theorem search_and_replace_contents_degrades_witness:
  "search_and_replace_contents [''t'', ''a.bin''] pattern_a ''o'' fs_text = (Ok (), fs_text) \<and>
   search_and_replace_contents [''t'', ''a.txt''] pattern_a ''o''
       (fs_text\<lparr>open_refused := (\<lambda>p. True)\<rparr>) =
     (Ok (), log_msg Warning [''t'', ''a.txt''] PermissionError
               (fs_text\<lparr>open_refused := (\<lambda>p. True)\<rparr>)) \<and>
   (\<exists>s'. entries s' = entries fs_text \<and> inodes s' = inodes fs_text \<and>
      replace_files pattern_a pattern_a ''o'' [''t''] [''a.bin'', ''a.txt''] fs_text =
        (case replace_files pattern_a pattern_a ''o'' [''t''] [''a.txt''] s' of
           (r, s2, tr) \<Rightarrow> (r, s2, Rewrite [''t'', ''a.bin''] # tr)))"
proof -
  have bin: "stat_path fs_text [''t'', ''a.bin''] = Some ([''t'', ''a.bin''], Reg 2)"
    by (simp add: stat_path_def follow_numeral lookup_def fs_text_def mk_state_def)
  have atxt: "stat_path (fs_text\<lparr>open_refused := (\<lambda>p. True)\<rparr>) [''t'', ''a.txt'']
               = Some ([''t'', ''a.txt''], Reg 1)"
    by (simp add: stat_path_def follow_numeral lookup_def fs_text_def mk_state_def)
  have nd: "decode fs_text (fst (inodes fs_text 2)) = None" "\<not> open_refused fs_text q"
    "pmatch pattern_a ''a.bin''" "\<not> islink fs_text [''t'', ''a.bin'']" for q
    by (simp_all add: fs_text_def mk_state_def ascii_decode_def pattern_a_def islink_def lookup_def)
  show ?thesis
    using search_and_replace_contents_degrades
            [of fs_text "[''t'', ''a.bin'']" "[''t'', ''a.bin'']" 2 pattern_a "''o''"
                "[''t'']" "''a.bin''" "[''t'', ''a.bin'']" 2 pattern_a "[''a.txt'']"]
          search_and_replace_contents_degrades
            [of "fs_text\<lparr>open_refused := (\<lambda>p. True)\<rparr>" "[''t'', ''a.txt'']" "[''t'', ''a.txt'']" 1
                pattern_a "''o''" "[''t'']" "''a.bin''" "[''t'', ''a.bin'']" 2 pattern_a "[''a.txt'']"]
          bin atxt nd
    by (simp del: replace_files.simps)
qed

section \<open>\<^verbatim>\<open>calculate_hash\<close>\<close>

lemma read_bytes_is_OSError: "read_bytes s p = Raise e \<Longrightarrow> is_OSError e"
  by (auto simp: read_bytes_def split: option.splits node.splits if_splits)

lemma calculate_hash_missing_name:
  "hashlib algorithm = None \<Longrightarrow> calculate_hash hashlib s p algorithm = Raise AttributeError"
  by (simp add: calculate_hash_def)

lemma calculate_hash_unreadable:
  "hashlib algorithm = Some (Constructor h) \<Longrightarrow> read_bytes s p = Raise e \<Longrightarrow>
   calculate_hash hashlib s p algorithm = Raise e \<and> is_OSError e"
  by (simp add: calculate_hash_def read_bytes_is_OSError)

lemma calculate_hash_digest:
  "hashlib algorithm = Some (Constructor h) \<Longrightarrow> read_bytes s p = Ok bytes \<Longrightarrow>
   calculate_hash hashlib s p algorithm = Ok (h (blocks (2 ^ 20) bytes))"
  by (simp add: calculate_hash_def)

text \<open>
  C8, at the input where the code leaves the claim. \<^verbatim>\<open>hashlib.new\<close> is an attribute of
  the module and no hash algorithm; \<^verbatim>\<open>getattr(hashlib, 'new')()\<close> is a call without its
  required argument. For every path, readable or not, \<^verbatim>\<open>calculate_hash\<close> raises
  \<^verbatim>\<open>TypeError\<close> there, not the \<^verbatim>\<open>AttributeError\<close> that stands for an unsupported
  algorithm.
\<close>

theorem calculate_hash_new_raises_TypeError:
  "calculate_hash (hashlib(''new'' \<mapsto> Needs_arguments)) s p ''new'' = Raise TypeError \<and>
   calculate_hash (hashlib(''new'' \<mapsto> Needs_arguments)) s p ''new'' \<noteq> Raise AttributeError"
  by (simp add: calculate_hash_def)

section \<open>Reasoning about \<^verbatim>\<open>os.walk\<close>\<close>

text \<open>
  A relation \<open>Q\<close> between the state before, the state after and what was done holds of a
  whole walk when it holds of doing nothing and of each yield with the run of the loop
  body on it, and when it composes. The walk is at \<open>walk_root\<close>, where it starts, and at
  directories that are no symbolic links when it comes to them; \<open>R\<close> is a further
  restriction on these directories that goes from a directory to its entries.
\<close>

lemma walk_dirs_rule:
  assumes refl: "\<And>s. Q s s []"
    and trans: "\<And>s s1 s2 t1 t2. Q s s1 t1 \<Longrightarrow> Q s1 s2 t2 \<Longrightarrow> Q s s2 (t1 @ t2)"
    and rec: "\<And>d s r s' tr. \<not> islink s (tp @ [d]) \<Longrightarrow> rec (tp @ [d]) s = Some (r, s', tr)
                \<Longrightarrow> Q s s' tr"
  shows "walk_dirs rec tp ds s = Some (r, s', tr) \<Longrightarrow> Q s s' tr"
proof (induction ds arbitrary: s r s' tr)
  case Nil
  then show ?case by (simp add: refl)
next
  case (Cons d ds)
  show ?case
  proof (cases "islink s (tp @ [d])")
    case True
    with Cons show ?thesis by simp
  next
    case False
    from Cons.prems False obtain r1 s1 t1 where r1: "rec (tp @ [d]) s = Some (r1, s1, t1)"
      by (auto split: option.splits)
    have q1: "Q s s1 t1"
      using rec [OF False r1] .
    show ?thesis
    proof (cases r1)
      case (Raise e)
      with Cons.prems False r1 have "s' = s1" "tr = t1"
        by auto
      with q1 show ?thesis by simp
    next
      case (Ok u)
      with Cons.prems False r1 obtain t2 where
        w2: "walk_dirs rec tp ds s1 = Some (r, s', t2)" and tr: "tr = t1 @ t2"
        by (auto split: option.splits)
      from trans [OF q1 Cons.IH [OF w2]] tr show ?thesis by simp
    qed
  qed
qed

lemma os_walk_rule:
  assumes refl: "\<And>s. Q s s []"
    and trans: "\<And>s s1 s2 t1 t2. Q s s1 t1 \<Longrightarrow> Q s1 s2 t2 \<Longrightarrow> Q s s2 (t1 @ t2)"
    and body: "\<And>tp dirs nondirs s r s1 t1.
       R tp \<Longrightarrow> tp = walk_root \<or> \<not> islink s tp \<Longrightarrow> scandir s tp = Some (dirs, nondirs) \<Longrightarrow>
       body tp dirs nondirs s = (r, s1, t1) \<Longrightarrow> Q s s1 (Yield tp dirs nondirs # t1)"
    and step: "\<And>tp d. R tp \<Longrightarrow> R (tp @ [d])"
  shows "R tp \<Longrightarrow> tp = walk_root \<or> \<not> islink s tp \<Longrightarrow> os_walk n body tp s = Some (r, s', tr)
         \<Longrightarrow> Q s s' tr"
proof (induction n arbitrary: tp s r s' tr)
  case 0
  then show ?case by simp
next
  case (Suc n)
  show ?case
  proof (cases "scandir s tp")
    case None
    with Suc.prems show ?thesis by (simp add: refl)
  next
    case (Some a)
    obtain dirs nondirs where a: "a = (dirs, nondirs)" by (cases a)
    obtain r1 s1 t1 where b: "body tp dirs nondirs s = (r1, s1, t1)"
      by (cases "body tp dirs nondirs s")
    have q1: "Q s s1 (Yield tp dirs nondirs # t1)"
      using body [OF Suc.prems(1,2) Some [unfolded a] b] .
    show ?thesis
    proof (cases r1)
      case (Raise e)
      with Suc.prems(3) Some a b q1 show ?thesis by simp
    next
      case (Ok u)
      with Suc.prems(3) Some a b obtain t2 where
        w: "walk_dirs (os_walk n body) tp dirs s1 = Some (r, s', t2)"
        and tr: "tr = (Yield tp dirs nondirs # t1) @ t2"
        by (auto split: option.splits)
      have "Q s1 s' t2"
      proof (rule walk_dirs_rule [where Q = Q, OF refl trans _ w])
        fix d s r s' tr
        assume "\<not> islink s (tp @ [d])" "os_walk n body (tp @ [d]) s = Some (r, s', tr)"
        then show "Q s s' tr"
          using Suc.IH [OF step [OF Suc.prems(1)]] by blast
      qed
      with q1 show ?thesis unfolding tr by (rule trans)
    qed
  qed
qed

section \<open>\<^verbatim>\<open>replace_in_file\<close>\<close>

lemma follow_not_link: "\<not> islink s p \<Longrightarrow> follow (Suc n) s p = Some p"
  by (auto simp: islink_def split: option.splits node.splits)

lemma stat_path_not_link:
  "\<not> islink s p \<Longrightarrow> stat_path s p = (case lookup s p of None \<Rightarrow> None | Some nd \<Rightarrow> Some (p, nd))"
  using follow_not_link [of s p 39] by (simp add: stat_path_def numeral_eq_Suc)

lemma search_and_replace_contents_inodes:
  assumes "\<not> islink s p"
    and "inodes (snd (search_and_replace_contents p pat rep s)) j \<noteq> inodes s j"
  shows "lookup s p = Some (Reg j)"
  using assms
  by (auto simp: search_and_replace_contents_def stat_path_not_link Let_def
      split: option.splits node.splits if_splits)

lemma replace_files_inv:
  "replace_files fpat pat rep root fs s = (r, s', tr) \<Longrightarrow>
   lookup s' = lookup s \<and>
   (\<forall>p. Rewrite p \<in> set tr \<longrightarrow> \<not> islink s p) \<and>
   (\<forall>j. inodes s' j \<noteq> inodes s j \<longrightarrow> (\<exists>p. Rewrite p \<in> set tr \<and> lookup s p = Some (Reg j)))"
proof (induction fs arbitrary: s r s' tr)
  case Nil
  then show ?case by simp
next
  case (Cons f fs)
  show ?case
  proof (cases "pmatch fpat f \<and> \<not> islink s (root @ [f])")
    case False
    with Cons show ?thesis by auto
  next
    case True
    obtain r1 s1 where c: "search_and_replace_contents (root @ [f]) pat rep s = (r1, s1)"
      by (cases "search_and_replace_contents (root @ [f]) pat rep s")
    have l1: "lookup s1 = lookup s"
      using search_and_replace_contents_lookup [of "root @ [f]" pat rep s] c by simp
    have i1: "inodes s1 j \<noteq> inodes s j \<Longrightarrow> lookup s (root @ [f]) = Some (Reg j)" for j
      using search_and_replace_contents_inodes [of s "root @ [f]" pat rep j] True c by simp
    show ?thesis
    proof (cases r1)
      case (Raise e)
      with Cons.prems True c have "s' = s1" "tr = [Rewrite (root @ [f])]" by auto
      with l1 i1 True show ?thesis by auto
    next
      case (Ok u)
      with Cons.prems True c obtain t2 where
        rf: "replace_files fpat pat rep root fs s1 = (r, s', t2)"
        and tr: "tr = Rewrite (root @ [f]) # t2"
        by (auto split: prod.splits)
      note ih = Cons.IH [OF rf]
      have il: "islink s1 = islink s"
        by (rule ext) (rule islink_cong [OF l1])
      show ?thesis
      proof (intro conjI allI impI)
        show "lookup s' = lookup s" using ih l1 by simp
      next
        fix p assume "Rewrite p \<in> set tr"
        then show "\<not> islink s p" using ih il tr True by auto
      next
        fix j assume ne: "inodes s' j \<noteq> inodes s j"
        show "\<exists>p. Rewrite p \<in> set tr \<and> lookup s p = Some (Reg j)"
        proof (cases "inodes s1 j = inodes s j")
          case True
          with ne have "inodes s' j \<noteq> inodes s1 j" by simp
          with ih obtain p where "Rewrite p \<in> set t2" "lookup s1 p = Some (Reg j)" by blast
          with l1 tr show ?thesis by auto
        next
          case False
          from i1 [OF False] tr show ?thesis by auto
        qed
      qed
    qed
  qed
qed

text \<open>
  C7. In a pass of \<^verbatim>\<open>replace_in_file\<close> that comes to an end, every call of
  \<^verbatim>\<open>search_and_replace_contents\<close> is on a path that is not a symbolic link, so it is never
  called on an entry that is one, whatever its name. The pass changes no entry, and every
  file whose bytes or \<^verbatim>\<open>stat\<close> fields it changed is the regular file at a path it called
  the rewrite on: nothing is rewritten through a symbolic link.
\<close>

theorem replace_in_file_skips_symlinks:
  assumes "replace_in_file fuel directory fpat pat rep s = Some (r, s', tr)"
  shows "lookup s' = lookup s \<and>
   (\<forall>p. Rewrite p \<in> set tr \<longrightarrow> \<not> islink s p) \<and>
   (\<forall>j. inodes s' j \<noteq> inodes s j \<longrightarrow> (\<exists>p. Rewrite p \<in> set tr \<and> lookup s p = Some (Reg j)))"
proof -
  let ?Q = "\<lambda>s s' tr. lookup s' = lookup s \<and>
   (\<forall>p. Rewrite p \<in> set tr \<longrightarrow> \<not> islink s p) \<and>
   (\<forall>j. inodes s' j \<noteq> inodes s j \<longrightarrow> (\<exists>p. Rewrite p \<in> set tr \<and> lookup s p = Some (Reg j)))"
  have trans: "?Q s s2 (t1 @ t2)" if a: "?Q s s1 t1" and b: "?Q s1 s2 t2" for s s1 s2 t1 t2
  proof (intro conjI allI impI)
    have l1: "lookup s1 = lookup s" using a by simp
    have il: "islink s1 = islink s" by (rule ext) (rule islink_cong [OF l1])
    show "lookup s2 = lookup s" using a b by simp
    show "\<not> islink s p" if "Rewrite p \<in> set (t1 @ t2)" for p
      using that a b il by auto
    show "\<exists>p. Rewrite p \<in> set (t1 @ t2) \<and> lookup s p = Some (Reg j)"
      if ne: "inodes s2 j \<noteq> inodes s j" for j
    proof (cases "inodes s1 j = inodes s j")
      case True
      with ne have "inodes s2 j \<noteq> inodes s1 j" by simp
      with b obtain p where "Rewrite p \<in> set t2" "lookup s1 p = Some (Reg j)" by blast
      with l1 show ?thesis by auto
    next
      case False
      with a obtain p where "Rewrite p \<in> set t1" "lookup s p = Some (Reg j)" by blast
      then show ?thesis by auto
    qed
  qed
  have "?Q s s' tr"
  proof (rule os_walk_rule [where Q = ?Q and R = "\<lambda>p. True" and n = fuel and tp = directory
        and walk_root = directory
        and body = "\<lambda>root directories files. replace_files fpat pat rep root files"])
    show "?Q s s []" for s by simp
    show "?Q s s2 (t1 @ t2)" if "?Q s s1 t1" "?Q s1 s2 t2" for s s1 s2 t1 t2
      using trans [OF that] .
    show "?Q s s1 (Yield tp dirs nondirs # t1)"
      if "replace_files fpat pat rep tp nondirs s = (r, s1, t1)"
      for tp dirs nondirs s r s1 t1
      using replace_files_inv [OF that] by simp
    show "os_walk fuel (\<lambda>root directories files. replace_files fpat pat rep root files)
            directory s = Some (r, s', tr)"
      using assms by (simp add: replace_in_file_def)
  qed simp_all
  then show ?thesis .
qed

text \<open>
  In \<^verbatim>\<open>/t\<close> all three names match the pattern; the pass calls the rewrite on \<^verbatim>\<open>a.bin\<close>
  and \<^verbatim>\<open>a.txt\<close> and not on the symbolic link \<^verbatim>\<open>a.lnk\<close>.
\<close>

theorem replace_in_file_skips_symlinks_witness:
  "\<exists>s' tr. replace_in_file 2 [''t''] pattern_a pattern_a ''o'' fs_text = Some (Ok (), s', tr) \<and>
     pmatch pattern_a ''a.lnk'' \<and> islink fs_text [''t'', ''a.lnk''] \<and>
     Rewrite [''t'', ''a.lnk''] \<notin> set tr \<and> Rewrite [''t'', ''a.txt''] \<in> set tr \<and>
     lookup s' = lookup fs_text"
proof -
  have "\<exists>s'. replace_in_file 2 [''t''] pattern_a pattern_a ''o'' fs_text =
     Some (Ok (), s', [Yield [''t''] [] [''a.bin'', ''a.txt'', ''a.lnk''],
                       Rewrite [''t'', ''a.bin''], Rewrite [''t'', ''a.txt'']])"
    by (simp add: replace_in_file_def os_walk_numeral scandir_def stat_path_def follow_numeral
        lookup_def listdir_def isdir_def stat_def islink_def search_and_replace_contents_def
        fs_text_def mk_state_def ascii_decode_def pattern_a_def m0_def write_inode_def)
  then obtain s' where ev: "replace_in_file 2 [''t''] pattern_a pattern_a ''o'' fs_text =
     Some (Ok (), s', [Yield [''t''] [] [''a.bin'', ''a.txt'', ''a.lnk''],
                       Rewrite [''t'', ''a.bin''], Rewrite [''t'', ''a.txt'']])" ..
  have lk: "islink fs_text [''t'', ''a.lnk'']" "pmatch pattern_a ''a.lnk''"
    by (simp_all add: islink_def lookup_def fs_text_def mk_state_def pattern_a_def)
  from replace_in_file_skips_symlinks [OF ev] lk
  have "Rewrite [''t'', ''a.lnk''] \<notin> set [Yield [''t''] [] [''a.bin'', ''a.txt'', ''a.lnk''],
          Rewrite [''t'', ''a.bin''], Rewrite [''t'', ''a.txt'']]"
    and "lookup s' = lookup fs_text"
    by blast+
  with ev lk show ?thesis by auto
qed

section \<open>What the operations of the system leave alone\<close>

subsection \<open>Entries\<close>

lemma lookup_set_entry [simp]:
  "lookup (set_entry p nd s) q = (if q = p then Some nd else lookup s q)"
  by (simp add: lookup_def set_entry_def update_conv')

lemma lookup_del_entry [simp]:
  "lookup (del_entry p s) q = (if q = p then None else lookup s q)"
  by (simp add: lookup_def del_entry_def delete_conv')

lemma set_entry_fields [simp]:
  "inodes (set_entry p nd s) = inodes s"
  "next_ino (set_entry p nd s) = next_ino s"
  "clock (set_entry p nd s) = clock s"
  "euid (set_entry p nd s) = euid s"
  "egid (set_entry p nd s) = egid s"
  "link_refused (set_entry p nd s) = link_refused s"
  "chown_refused (set_entry p nd s) = chown_refused s"
  "open_refused (set_entry p nd s) = open_refused s"
  "logged (set_entry p nd s) = logged s"
  by (simp_all add: set_entry_def)

lemma del_entry_fields [simp]:
  "inodes (del_entry p s) = inodes s"
  "next_ino (del_entry p s) = next_ino s"
  "clock (del_entry p s) = clock s"
  "euid (del_entry p s) = euid s"
  "egid (del_entry p s) = egid s"
  "link_refused (del_entry p s) = link_refused s"
  "chown_refused (del_entry p s) = chown_refused s"
  "open_refused (del_entry p s) = open_refused s"
  "logged (del_entry p s) = logged s"
  by (simp_all add: del_entry_def)

lemma kinds_set_entry [simp]:
  "kinds (set_entry p nd s) q = (if q = p then Some (kind_of nd) else kinds s q)"
  by (simp add: kinds_def)

lemma kinds_del_entry [simp]:
  "kinds (del_entry p s) q = (if q = p then None else kinds s q)"
  by (simp add: kinds_def)

lemma kinds_log_msg [simp]: "kinds (log_msg l p e s) q = kinds s q"
  by (simp add: kinds_def)

lemma lookup_inodes_update [simp]: "lookup (s\<lparr>inodes := x\<rparr>) = lookup s"
  by (rule lookup_cong) simp

lemma kinds_inodes_update [simp]: "kinds (s\<lparr>inodes := x\<rparr>) = kinds s"
  by (rule ext) (simp add: kinds_def)


lemma map_meta_content [simp]:
  "fst (inodes (map_meta f p nd s) j) = fst (inodes s j)"
  "next_ino (map_meta f p nd s) = next_ino s"
  by (cases nd; simp add: map_meta_def)+

lemma kinds_eq_Some_iff:
  "kinds s p = Some KDir \<longleftrightarrow> (\<exists>m. lookup s p = Some (Dir m))"
  "kinds s p = Some (KLnk t) \<longleftrightarrow> (\<exists>m. lookup s p = Some (Lnk t m))"
  "kinds s p = Some (KReg i) \<longleftrightarrow> lookup s p = Some (Reg i)"
  "kinds s p = None \<longleftrightarrow> lookup s p = None"
proof -
  show "kinds s p = Some KDir \<longleftrightarrow> (\<exists>m. lookup s p = Some (Dir m))"
  proof (cases "lookup s p")
    case (Some nd)
    then show ?thesis by (cases nd) (simp_all add: kinds_def kind_of_def)
  qed (simp add: kinds_def)
  show "kinds s p = Some (KLnk t) \<longleftrightarrow> (\<exists>m. lookup s p = Some (Lnk t m))"
  proof (cases "lookup s p")
    case (Some nd)
    then show ?thesis by (cases nd) (simp_all add: kinds_def kind_of_def)
  qed (simp add: kinds_def)
  show "kinds s p = Some (KReg i) \<longleftrightarrow> lookup s p = Some (Reg i)"
  proof (cases "lookup s p")
    case (Some nd)
    then show ?thesis by (cases nd) (simp_all add: kinds_def kind_of_def)
  qed (simp add: kinds_def)
  show "kinds s p = None \<longleftrightarrow> lookup s p = None"
    by (simp add: kinds_def)
qed

lemma islink_kinds: "islink s p \<longleftrightarrow> (\<exists>t. kinds s p = Some (KLnk t))"
  by (auto simp: islink_def kinds_def kind_of_def split: option.splits node.splits)

subsection \<open>The relations compose\<close>

lemma kframe_refl [simp]: "kframe B D s s"
  by (simp add: kframe_def)




lemma lframe_refl [simp]: "lframe B s s"
  by (simp add: lframe_def)

lemma lframe_trans: "lframe B s s1 \<Longrightarrow> lframe B s1 s2 \<Longrightarrow> lframe B s s2"
  by (simp add: lframe_def)

lemma lframe_mono: "lframe B s s' \<Longrightarrow> B \<subseteq> B' \<Longrightarrow> lframe B' s s'"
  unfolding lframe_def by blast

lemma kframe_lframe: "kframe B D s s' \<Longrightarrow> lframe B s s'"
  unfolding kframe_def lframe_def islink_kinds by (metis kind.distinct(1) option.distinct(1) option.inject)

lemma keeps_content_refl [simp]: "keeps_content s s"
  by (simp add: keeps_content_def)




subsection \<open>The system calls\<close>

lemma changes_refl [simp]: "changes B D s s"
  by (simp add: changes_def)










lemma os_mkdir_Ok: "os_mkdir p s = (Ok u, s') \<Longrightarrow> kinds s' p = Some KDir"
  by (auto simp: os_mkdir_def kind_of_def split: if_splits option.splits)

lemma os_mkdir_Raise: "os_mkdir p s = (Raise e, s') \<Longrightarrow> s' = s \<and> is_OSError e"
  by (auto simp: os_mkdir_def parent_error_def split: if_splits option.splits node.splits)








subsection \<open>\<^verbatim>\<open>os.makedirs\<close> and \<^verbatim>\<open>create_similar_directory\<close>\<close>

declare makedirs.simps [simp del]




subsection \<open>Copying to a path where nothing is\<close>







subsection \<open>\<^verbatim>\<open>link_or_copy\<close> to a path that is no directory\<close>







subsection \<open>\<^verbatim>\<open>link_or_copy\<close> makes no directory at its destination\<close>


lemma os_link_not_dir:
  "os_link a b s = (r, s') \<Longrightarrow> kinds s b \<noteq> Some KDir \<Longrightarrow> kinds s' b \<noteq> Some KDir"
  by (auto simp: os_link_def kind_of_def split: option.splits node.splits if_splits)









subsection \<open>One step of the merge\<close>




lemma merge_rel_refl [simp]: "merge_rel src dst r i s s"
  by (simp add: merge_rel_def)


section \<open>\<^verbatim>\<open>link_or_copy_tree\<close> is a merge\<close>

lemma longest_common_prefix_append: "longest_common_prefix (xs @ ys) xs = xs"
  by (induction xs) simp_all

lemma relpath_append [simp]: "relpath (start @ r) start = r"
  by (simp add: relpath_def longest_common_prefix_append)















section \<open>Properties of the guard\<close>

lemma split_acc_spaces:
  "\<forall>c \<in> set s. is_space c \<Longrightarrow> split_acc [] s = []"
  by (induction s) auto

lemma split_acc_word:
  "\<forall>ch \<in> set w. \<not> is_space ch \<Longrightarrow> split_acc acc (w @ s) = split_acc (acc @ w) s"
  by (induction w arbitrary: acc) simp_all

lemma split_acc_at_space:
  "is_space sp \<Longrightarrow> split_acc acc (u @ sp # v) = split_acc acc u @ split_acc [] v"
  by (induction u arbitrary: acc) simp_all

lemma str_split_word:
  "w \<noteq> [] \<Longrightarrow> \<forall>ch \<in> set w. \<not> is_space ch \<Longrightarrow> str_split w = [w]"
  using split_acc_word [of w "[]" "[]"] by (simp add: str_split_def)

lemma str_split_at_space:
  "is_space sp \<Longrightarrow> str_split (u @ sp # v) = str_split u @ str_split v"
  by (simp add: str_split_def split_acc_at_space)

lemma check_call_nonempty:
  "cmd_list \<noteq> [] \<Longrightarrow>
   check_call run cmd_list =
     (case run cmd_list of
        Raises e \<Rightarrow> Some (Raise e)
      | Exited n \<Rightarrow> Some (if n = 0 then Ok () else Raise CalledProcessError)
      | Blocks \<Rightarrow> None)"
  by (cases cmd_list) (simp_all add: check_call_def)

text \<open>
  C9, as the code has it. A command that is not a string is rejected with \<^verbatim>\<open>TypeError\<close>.
  A string command is split at its whitespace into words (a word without whitespace is
  one argument, and splitting goes through a whitespace character). When the argument
  list is not empty: a \<^verbatim>\<open>FileNotFoundError\<close> of starting the command becomes
  \<open>RequiredCommandNotFound\<close>, a non-zero exit status becomes \<open>RequiredCommandFailure\<close>, both
  with the command, its argument list and the caller's template; an exit with status 0
  lets the generator yield once and return, so the guarded region is entered and run
  exactly once; every other exception of starting the command goes through as it is; and
  a command that never exits keeps the guard from returning.
\<close>

theorem requires_command_success_outcomes:
  "((\<forall>c. command \<noteq> PyStr c) \<longrightarrow>
      requires_command_success run command nf ff = Some (Gen_raise TypeError)) \<and>
   (w \<noteq> [] \<and> (\<forall>ch \<in> set w. \<not> is_space ch) \<longrightarrow> str_split w = [w]) \<and>
   (is_space sp \<longrightarrow> str_split (u @ sp # v) = str_split u @ str_split v) \<and>
   (str_split c \<noteq> [] \<longrightarrow>
      (run (str_split c) = Raises FileNotFoundError \<longrightarrow>
         requires_command_success run (PyStr c) nf ff =
           Some (Gen_raise (RequiredCommandNotFound c (str_split c) nf))) \<and>
      (run (str_split c) = Exited n \<and> n \<noteq> 0 \<longrightarrow>
         requires_command_success run (PyStr c) nf ff =
           Some (Gen_raise (RequiredCommandFailure c (str_split c) ff))) \<and>
      (run (str_split c) = Exited 0 \<longrightarrow>
         requires_command_success run (PyStr c) nf ff = Some (Gen_yield Gen_return) \<and>
         with_guard (requires_command_success run (PyStr c) nf ff) (Ok x) = Some (Ok x)) \<and>
      (run (str_split c) = Raises e \<and> e \<noteq> FileNotFoundError \<and> e \<noteq> CalledProcessError \<longrightarrow>
         requires_command_success run (PyStr c) nf ff = Some (Gen_raise e) \<and>
         with_guard (requires_command_success run (PyStr c) nf ff) (Ok x) = Some (Raise e)) \<and>
      (run (str_split c) = Blocks \<longrightarrow>
         requires_command_success run (PyStr c) nf ff = None))"
proof (intro conjI impI)
  assume "\<forall>c. command \<noteq> PyStr c"
  then show "requires_command_success run command nf ff = Some (Gen_raise TypeError)"
    by (cases command) (simp_all add: requires_command_success_def)
next
  assume "w \<noteq> [] \<and> (\<forall>ch \<in> set w. \<not> is_space ch)"
  then show "str_split w = [w]" by (simp add: str_split_word)
next
  assume "is_space sp"
  then show "str_split (u @ sp # v) = str_split u @ str_split v" by (rule str_split_at_space)
next
  assume "str_split c \<noteq> []" "run (str_split c) = Raises FileNotFoundError"
  then show "requires_command_success run (PyStr c) nf ff =
           Some (Gen_raise (RequiredCommandNotFound c (str_split c) nf))"
    by (simp add: requires_command_success_def check_call_nonempty Let_def)
next
  assume "str_split c \<noteq> []" "run (str_split c) = Exited n \<and> n \<noteq> 0"
  then show "requires_command_success run (PyStr c) nf ff =
           Some (Gen_raise (RequiredCommandFailure c (str_split c) ff))"
    by (simp add: requires_command_success_def check_call_nonempty Let_def)
next
  assume a: "str_split c \<noteq> []" "run (str_split c) = Exited 0"
  then show y: "requires_command_success run (PyStr c) nf ff = Some (Gen_yield Gen_return)"
    by (simp add: requires_command_success_def check_call_nonempty Let_def)
  show "with_guard (requires_command_success run (PyStr c) nf ff) (Ok x) = Some (Ok x)"
    by (simp add: y with_guard_def)
next
  assume a: "str_split c \<noteq> []"
    "run (str_split c) = Raises e \<and> e \<noteq> FileNotFoundError \<and> e \<noteq> CalledProcessError"
  then show y: "requires_command_success run (PyStr c) nf ff = Some (Gen_raise e)"
    by (simp add: requires_command_success_def check_call_nonempty Let_def)
  show "with_guard (requires_command_success run (PyStr c) nf ff) (Ok x) = Some (Raise e)"
    by (simp add: y with_guard_def)
next
  assume "str_split c \<noteq> []" "run (str_split c) = Blocks"
  then show "requires_command_success run (PyStr c) nf ff = None"
    by (simp add: requires_command_success_def check_call_nonempty Let_def)
qed

text \<open>
  The command \<^verbatim>\<open>ls  -l /\<close> (two spaces after \<^verbatim>\<open>ls\<close>) is the argument list
  \<^verbatim>\<open>['ls', '-l', '/']\<close> and the guard lets the region run; \<^verbatim>\<open>ls -l\<close> is another list,
  not found; \<^verbatim>\<open>false\<close> exits with status 1.
\<close>

theorem requires_command_success_outcomes_witness:
  "requires_command_success run_ls (PyInt 3) None None = Some (Gen_raise TypeError) \<and>
   str_split ''ls  -l /'' = [''ls'', ''-l'', ''/''] \<and>
   requires_command_success run_ls (PyStr ''ls  -l /'') None None = Some (Gen_yield Gen_return) \<and>
   with_guard (requires_command_success run_ls (PyStr ''ls  -l /'') None None) (Ok (7::nat))
     = Some (Ok 7) \<and>
   requires_command_success run_ls (PyStr ''ls -l'') (Some ''missing'') None =
     Some (Gen_raise (RequiredCommandNotFound ''ls -l'' [''ls'', ''-l''] (Some ''missing''))) \<and>
   requires_command_success (run_exit 1) (PyStr ''false'') None (Some ''failed'') =
     Some (Gen_raise (RequiredCommandFailure ''false'' [''false''] (Some ''failed'')))"
proof -
  have sp: "is_space CHR '' ''" "\<not> is_space CHR ''l''" "\<not> is_space CHR ''s''"
    "\<not> is_space CHR ''-''" "\<not> is_space CHR ''/''"
    by (simp_all add: is_space_def)
  have s1: "str_split ''ls  -l /'' = [''ls'', ''-l'', ''/'']"
    by (simp add: str_split_def sp)
  have s2: "str_split ''ls -l'' = [''ls'', ''-l'']"
    by (simp add: str_split_def sp)
  have s3: "str_split ''false'' = [''false'']"
    by (simp add: str_split_def is_space_def)
  show ?thesis
    using requires_command_success_outcomes
            [where command = "PyInt 3" and run = run_ls and nf = None and ff = None
               and c = "''ls  -l /''" and x = "7::nat" and n = 0 and e = RuntimeError
               and w = "''ls''" and sp = "CHR '' ''" and u = "''ls''" and v = "''-l''"]
          requires_command_success_outcomes
            [where command = "PyInt 3" and run = run_ls and nf = "Some ''missing''" and ff = None
               and c = "''ls -l''" and x = "7::nat" and n = 0 and e = RuntimeError
               and w = "''ls''" and sp = "CHR '' ''" and u = "''ls''" and v = "''-l''"]
          requires_command_success_outcomes
            [where command = "PyInt 3" and run = "run_exit 1" and nf = None
               and ff = "Some ''failed''"
               and c = "''false''" and x = "7::nat" and n = 1 and e = RuntimeError
               and w = "''ls''" and sp = "CHR '' ''" and u = "''ls''" and v = "''-l''"]
    by (simp add: s1 s2 s3 run_ls_def run_exit_def with_guard_def)
qed

text \<open>
  The claim as the specification states it fails: a command whose file is found and may
  not be executed neither raises one of the two guard exceptions nor lets the region run,
  and a command whose path goes through a regular file cannot be located and yet does
  not raise \<open>RequiredCommandNotFound\<close>.
\<close>

theorem requires_command_success_other_errors:
  "requires_command_success run_refused (PyStr ''./tool'') None None
     = Some (Gen_raise PermissionError) \<and>
   with_guard (requires_command_success run_refused (PyStr ''./tool'') None None) (Ok True)
     = Some (Raise PermissionError) \<and>
   requires_command_success run_under_file (PyStr ''/etc/passwd/tool'') None None
     = Some (Gen_raise NotADirectoryError)"
  by (simp add: requires_command_success_def check_call_def str_split_def is_space_def
      with_guard_def run_refused_def run_under_file_def)

text \<open>
  C10. For the empty string and for every string of whitespace only, the argument list is
  empty and running it raises \<^verbatim>\<open>IndexError\<close>, which the guard does not catch: the failure
  is neither \<open>RequiredCommandNotFound\<close> nor \<open>RequiredCommandFailure\<close> nor \<^verbatim>\<open>TypeError\<close>.
\<close>

theorem requires_command_success_blank:
  assumes "\<forall>ch \<in> set c. is_space ch"
  shows "str_split c = [] \<and>
    requires_command_success run (PyStr c) nf ff = Some (Gen_raise IndexError) \<and>
    requires_command_success run (PyStr c) nf ff \<noteq> Some (Gen_raise TypeError) \<and>
    requires_command_success run (PyStr c) nf ff \<noteq>
      Some (Gen_raise (RequiredCommandNotFound a as fa)) \<and>
    requires_command_success run (PyStr c) nf ff \<noteq>
      Some (Gen_raise (RequiredCommandFailure b bs fb)) \<and>
    with_guard (requires_command_success run (PyStr c) nf ff) body = Some (Raise IndexError)"
  using split_acc_spaces [OF assms]
  by (simp add: requires_command_success_def check_call_def str_split_def with_guard_def)

theorem requires_command_success_blank_witness:
  "requires_command_success (run_exit 0) (PyStr []) None None = Some (Gen_raise IndexError) \<and>
   requires_command_success (run_exit 0) (PyStr [CHR '' '', CHR 0x09]) None None
     = Some (Gen_raise IndexError) \<and>
   with_guard (requires_command_success (run_exit 0) (PyStr [CHR '' '', CHR 0x09]) None None)
     (Ok True) = Some (Raise IndexError)"
proof -
  have e: "\<forall>ch \<in> set []. is_space ch" by simp
  have h: "\<forall>ch \<in> set [CHR '' '', CHR 0x09]. is_space ch" by (simp add: is_space_def)
  show ?thesis
    using requires_command_success_blank
            [OF e, of "run_exit 0" None None "[]" "[]" None "[]" "[]" None "Ok True"]
          requires_command_success_blank
            [OF h, of "run_exit 0" None None "[]" "[]" None "[]" "[]" None "Ok True"]
    by (simp add: with_guard_def)
qed

section \<open>\<^verbatim>\<open>link_or_copy\<close>: what is at the destination after a call that returns\<close>

subsection \<open>The hard link\<close>



subsection \<open>What \<^verbatim>\<open>stat\<close> and a reader see is kept\<close>



lemma follow_kinds:
  assumes "\<And>p. kinds s' p = kinds s p"
  shows "follow n s' p = follow n s p"
proof (induction n arbitrary: p)
  case 0
  show ?case
  proof (cases "islink s p")
    case True
    then obtain t where "kinds s p = Some (KLnk t)" by (auto simp: islink_kinds)
    with assms [of p] obtain m m' where "lookup s p = Some (Lnk t m)" "lookup s' p = Some (Lnk t m')"
      by (auto simp: kinds_eq_Some_iff)
    then show ?thesis by simp
  next
    case False
    with assms [of p] have "\<not> islink s' p" by (simp add: islink_kinds)
    with False show ?thesis
      by (auto simp: islink_def split: option.splits node.splits)
  qed
next
  case (Suc n)
  show ?case
  proof (cases "islink s p")
    case True
    then obtain t where "kinds s p = Some (KLnk t)" by (auto simp: islink_kinds)
    with assms [of p] obtain m m' where "lookup s p = Some (Lnk t m)" "lookup s' p = Some (Lnk t m')"
      by (auto simp: kinds_eq_Some_iff)
    then show ?thesis by (simp add: Suc.IH)
  next
    case False
    with assms [of p] have "\<not> islink s' p" by (simp add: islink_kinds)
    with False show ?thesis
      by (auto simp: islink_def split: option.splits node.splits)
  qed
qed

lemma view_same:
  assumes k: "\<And>p. kinds s' p = kinds s p"
    and v: "\<And>p nd nd'. lookup s p = Some nd \<Longrightarrow> lookup s' p = Some nd' \<Longrightarrow>
              view_node s' nd' = view_node s nd"
  shows "view f s' q = view f s q"
proof -
  have l: "(case lookup s' p of None \<Rightarrow> None | Some nd \<Rightarrow> view_node s' nd) =
           (case lookup s p of None \<Rightarrow> None | Some nd \<Rightarrow> view_node s nd)" for p
  proof (cases "lookup s p")
    case None
    with k [of p] show ?thesis by (simp add: kinds_def)
  next
    case (Some nd)
    with k [of p] obtain nd' where "lookup s' p = Some nd'" by (auto simp: kinds_def)
    with Some v [of p nd nd'] show ?thesis by simp
  qed
  show ?thesis
  proof (cases f)
    case False
    with l [of q] show ?thesis by (simp add: view_def)
  next
    case True
    show ?thesis
    proof (cases "follow 40 s q")
      case None
      with True follow_kinds [of s' s 40 q, OF k] show ?thesis
        by (simp add: view_def stat_def stat_path_def)
    next
      case (Some q')
      with True follow_kinds [of s' s 40 q, OF k] l [of q'] show ?thesis
        by (auto simp: view_def stat_def stat_path_def split: option.splits)
    qed
  qed
qed

lemma view_log_msg [simp]: "view f (log_msg l p e s) q = view f s q"
  by (rule view_same) (auto simp: view_node_def split: node.splits)



subsection \<open>The copy\<close>












end
